theory Spec2Isabelle
  imports Main "HOL-Library.Sublist"
begin

section \<open>Go library functions used by the command gateway\<close>

text \<open>
  Go strings are byte sequences; \<open>string\<close> (a list of 8-bit characters) is the same
  thing. A run-time panic of the Go code is a value of type \<open>error\<close>; a function that
  can panic returns \<open>error + 'a\<close>, with \<open>Inl\<close> for the panic.
\<close>

datatype error = IndexOutOfRange | NilPointerDereference

text \<open>\<open>xs[i]\<close> on a slice: panics when \<open>i\<close> is not below the length.\<close>

definition index :: "'a list \<Rightarrow> nat \<Rightarrow> error + 'a" where
  "index xs i = (if i < length xs then Inr (xs ! i) else Inl IndexOutOfRange)"

text \<open>\<open>strings.HasPrefix(s, p)\<close>.\<close>

definition HasPrefix :: "string \<Rightarrow> string \<Rightarrow> bool" where
  "HasPrefix s p = prefix p s"

text \<open>\<open>strings.Index(s, sep)\<close>: the position of the first occurrence, \<open>None\<close> for -1.\<close>

fun Index :: "string \<Rightarrow> string \<Rightarrow> nat option" where
  "Index [] sep = (if sep = [] then Some 0 else None)"
| "Index (c # cs) sep =
     (if prefix sep (c # cs) then Some 0 else map_option Suc (Index cs sep))"

text \<open>
  The loop of \<open>strings.genSplit\<close> for a non-empty separator: at most \<open>k\<close> cuts, each
  piece keeping \<open>sepSave\<close> bytes of the separator; the loop ends early when the
  separator no longer occurs.
\<close>

fun genSplit :: "string \<Rightarrow> nat \<Rightarrow> nat \<Rightarrow> string \<Rightarrow> string list" where
  "genSplit sep sepSave 0 s = [s]"
| "genSplit sep sepSave (Suc k) s =
     (case Index s sep of
        None \<Rightarrow> [s]
      | Some m \<Rightarrow> take (m + sepSave) s # genSplit sep sepSave k (drop (m + length sep) s))"

text \<open>
  \<open>strings.Split(s, sep)\<close> is \<open>genSplit(s, sep, 0, -1)\<close>: the number of cuts is the
  number of occurrences of the separator, which \<open>length s\<close> bounds.
  \<open>strings.SplitAfterN(s, sep, n)\<close> is \<open>genSplit(s, sep, len(sep), n)\<close>, with \<open>n\<close>
  capped at \<open>len(s) + 1\<close>. Both are used with non-empty separators only.
\<close>

definition Split :: "string \<Rightarrow> string \<Rightarrow> string list" where
  "Split s sep = genSplit sep 0 (length s) s"

definition SplitAfterN :: "string \<Rightarrow> string \<Rightarrow> nat \<Rightarrow> string list" where
  "SplitAfterN s sep n =
     (if n = 0 then [] else genSplit sep (length sep) (min n (length s + 1) - 1) s)"

text \<open>
  \<open>unicode.IsSpace\<close> on UTF-8 text: the number of bytes of the white-space rune at the
  head of the string, 0 when there is none. The white-space runes are the six ASCII
  ones, U+0085, U+00A0, U+1680, U+2000 to U+200A, U+2028, U+2029, U+202F, U+205F and
  U+3000; their lead bytes never occur inside another rune.
\<close>

definition spaceWidth :: "string \<Rightarrow> nat" where
  "spaceWidth s =
     (let b = map (of_char :: char \<Rightarrow> nat) (take 3 s) in
      if b = [] then 0
      else if hd b \<in> {9, 10, 11, 12, 13, 32} then 1
      else if take 2 b = [0xC2, 0x85] \<or> take 2 b = [0xC2, 0xA0] then 2
      else if b = [0xE1, 0x9A, 0x80]
            \<or> (take 2 b = [0xE2, 0x80] \<and> length b = 3
                \<and> ((0x80 \<le> b ! 2 \<and> b ! 2 \<le> 0x8A) \<or> b ! 2 \<in> {0xA8, 0xA9, 0xAF}))
            \<or> b = [0xE2, 0x81, 0x9F] \<or> b = [0xE3, 0x80, 0x80] then 3
      else 0)"

text \<open>
  \<open>strings.Fields(s)\<close>: the maximal runs of non-white-space bytes, in order. The first
  argument counts the bytes of a white-space rune still to be skipped, \<open>cur\<close> is the
  field being read and \<open>acc\<close> the fields completed so far.
\<close>

fun fields_loop :: "nat \<Rightarrow> string \<Rightarrow> string list \<Rightarrow> string \<Rightarrow> string list" where
  "fields_loop k cur acc [] = (if cur = [] then acc else acc @ [cur])"
| "fields_loop (Suc k) cur acc (c # cs) = fields_loop k cur acc cs"
| "fields_loop 0 cur acc (c # cs) =
     (let w = spaceWidth (c # cs) in
      if 0 < w then fields_loop (w - 1) [] (if cur = [] then acc else acc @ [cur]) cs
      else fields_loop 0 (cur @ [c]) acc cs)"

definition Fields :: "string \<Rightarrow> string list" where
  "Fields s = fields_loop 0 [] [] s"

text \<open>
  \<open>fmt.Sprintf\<close> for the format strings of this package: the verbs are \<open>%s\<close> and
  \<open>%v\<close>, every argument is already text, and each call site passes as many arguments
  as the format has verbs.
\<close>

fun Sprintf :: "string \<Rightarrow> string list \<Rightarrow> string" where
  "Sprintf [] args = []"
| "Sprintf [c] args = [c]"
| "Sprintf (c # d # fmt) args =
     (if c = CHR ''%'' \<and> (d = CHR ''s'' \<or> d = CHR ''v'') then
        (case args of
           [] \<Rightarrow> ''%!'' @ [d] @ ''(MISSING)'' @ Sprintf fmt []
         | a # args' \<Rightarrow> a @ Sprintf fmt args')
      else c # Sprintf (d # fmt) args)"

text \<open>The verb \<open>%v\<close> on a \<open>bool\<close>.\<close>

definition showBool :: "bool \<Rightarrow> string" where
  "showBool b = (if b then ''true'' else ''false'')"

text \<open>\<open>utf8.RuneCount\<close> on well-formed UTF-8: the bytes that are not continuation bytes.\<close>

definition RuneCount :: "string \<Rightarrow> nat" where
  "RuneCount s = length (filter (\<lambda>c. \<not> (0x80 \<le> (of_char c :: nat) \<and> (of_char c :: nat) < 0xC0)) s)"

section \<open>pkg/execute: tables, messages and types\<close>

text \<open>A Go \<open>map[string]bool\<close> read by \<open>m[key]\<close>: a missing key reads as \<open>false\<close>.\<close>

definition lookup :: "(string \<times> bool) list \<Rightarrow> string \<Rightarrow> bool" where
  "lookup m k = (case map_of m k of None \<Rightarrow> False | Some b \<Rightarrow> b)"

definition validKubectlCommands :: "(string \<times> bool) list" where
  "validKubectlCommands =
     [(''api-resources'', True), (''api-versions'', True), (''cluster-info'', True),
      (''describe'', True), (''diff'', True), (''explain'', True), (''get'', True),
      (''logs'', True), (''top'', True), (''auth'', True)]"

definition validNotifierCommand :: "(string \<times> bool) list" where
  "validNotifierCommand = [(''notifier'', True)]"

definition validPingCommand :: "(string \<times> bool) list" where
  "validPingCommand = [(''ping'', True)]"

definition validVersionCommand :: "(string \<times> bool) list" where
  "validVersionCommand = [(''version'', True)]"

definition validFilterCommand :: "(string \<times> bool) list" where
  "validFilterCommand = [(''filters'', True)]"

definition kubectlBinary :: string where
  "kubectlBinary = ''/usr/local/bin/kubectl''"

definition notifierStartMsg :: string where
  "notifierStartMsg = ''Brace yourselves, notifications are coming from cluster '%s'.''"

definition notifierStopMsg :: string where
  "notifierStopMsg = ''Sure! I won't send you notifications from cluster '%s' anymore.''"

definition unsupportedCmdMsg :: string where
  "unsupportedCmdMsg = ''Command not supported. Please run /botkubehelp to see supported commands.''"

definition incompleteCmdMsg :: string where
  "incompleteCmdMsg = ''You missed to pass options for the command. Please run /botkubehelp to see command options.''"

definition kubectlDisabledMsg :: string where
  "kubectlDisabledMsg = ''Sorry, the admin hasn't given me the permission to execute kubectl command on cluster '%s'.''"

definition filterNameMissing :: string where
  "filterNameMissing = ''You forgot to pass filter name. Please pass one of the following valid filters:''
     @ [CHR 0x0A, CHR 0x0A] @ ''%s''"

definition filterEnabled :: string where
  "filterEnabled = ''I have enabled '%s' filter on '%s' cluster.''"

definition filterDisabled :: string where
  "filterDisabled = ''Done. I won't run '%s' filter on '%s' cluster.''"

record DefaultExecutor =
  Message :: string
  AllowKubectl :: bool
  ClusterName :: string
  ChannelName :: string
  IsAuthChannel :: bool

definition Start :: string where "Start = ''start''"
definition Stop :: string where "Stop = ''stop''"
definition Status :: string where "Status = ''status''"
definition ShowConfig :: string where "ShowConfig = ''showconfig''"

definition ClusterFlag :: string where "ClusterFlag = ''--cluster-name''"
definition FollowFlag :: string where "FollowFlag = ''--follow''"
definition AbbrFollowFlag :: string where "AbbrFollowFlag = ''-f''"
definition WatchFlag :: string where "WatchFlag = ''--watch''"
definition AbbrWatchFlag :: string where "AbbrWatchFlag = ''-w''"

definition FilterList :: string where "FilterList = ''list''"
definition FilterEnable :: string where "FilterEnable = ''enable''"
definition FilterDisable :: string where "FilterDisable = ''disable''"

section \<open>State and collaborators\<close>

text \<open>
  A filter as the registry and the listing see it: the name of its Go type
  (\<open>reflect.TypeOf(k).Name()\<close>) and the text \<open>Describe()\<close> returns.
\<close>

record Filter =
  FilterName :: string
  Describe :: string

text \<open>
  The state the handlers share. \<open>Notify\<close> is \<open>config.Notify\<close>. \<open>FiltersMap\<close> is what
  \<open>filterengine.DefaultFilterEngine.ShowFilters()\<close> returns, a Go map from filter to its
  enabled flag; the list holds its entries in the order in which a \<open>range\<close> statement
  yields them, an order the language does not fix. \<open>runs\<close> records every command handed
  to \<open>CommandRunner.Run\<close>, oldest first.
\<close>

record world =
  Notify :: bool
  FiltersMap :: "(Filter \<times> bool) list"
  runs :: "(string \<times> string list) list"

text \<open>
  The fields of \<open>config.Config\<close> that the sources read or write:
  \<open>Communications.Slack.Token\<close>, \<open>Communications.Slack.Channel\<close>,
  \<open>Communications.Slack.NotifType\<close> and \<open>Communications.ElasticSearch.Password\<close>.
  The declaration of the type is not among the sources; whatever else it holds is the
  extension part of the record.
\<close>

record Config =
  SlackToken :: string
  SlackChannel :: string
  SlackNotifType :: string
  ElasticSearchPassword :: string

text \<open>
  What the package reaches outside itself: the process runner
  (\<open>NewCommandRunner(binary, args).Run()\<close>, giving the output and the error text if
  any), \<open>os.Getenv\<close>, opening and reading the configuration file below
  \<open>CONFIG_PATH\<close>, \<open>yaml.Unmarshal\<close> and \<open>yaml.Marshal\<close> (\<open>Inl\<close> is the error),
  the zero value of \<open>config.Config\<close>, and the text of the error of
  \<open>SetFilter\<close>.
\<close>

record 'c env =
  run_command :: "string \<Rightarrow> string list \<Rightarrow> string \<times> string option"
  getenv :: "string \<Rightarrow> string"
  read_config :: "string \<Rightarrow> string + string"
  yaml_unmarshal :: "string \<Rightarrow> string + 'c Config_scheme"
  yaml_marshal :: "'c Config_scheme \<Rightarrow> string + string"
  zero_config :: "'c Config_scheme"
  set_filter_error :: string

text \<open>
  Modelled from the spec: \<open>filterengine.DefaultFilterEngine.SetFilter\<close> is not among the
  sources. The spec: "setEnabled(identity, bool) fails with NotFoundError if identity is
  absent"; otherwise the flag of the filter of that identity is set to the value given.
  \<open>None\<close> is the failure.
\<close>

fun SetFilter :: "string \<Rightarrow> bool \<Rightarrow> (Filter \<times> bool) list \<Rightarrow> (Filter \<times> bool) list option" where
  "SetFilter name flag [] = None"
| "SetFilter name flag ((k, v) # fs) =
     (if FilterName k = name then Some ((k, flag) # fs)
      else map_option ((#) (k, v)) (SetFilter name flag fs))"

text \<open>
  The exits of a scanning loop: a panic, an early \<open>return ""\<close>, or the end of the loop
  with the values it computed.
\<close>

datatype 'a scan = Panicked error | ReturnedEmpty | Finished 'a

section \<open>pkg/execute: the handlers\<close>

definition printDefaultMsg :: string where
  "printDefaultMsg = unsupportedCmdMsg"

text \<open>
  \<open>trimQuotes\<close>: \<open>strings.TrimFunc\<close> with a predicate true of the single and the double
  quote (\<open>unicode.SimpleFold\<close> maps each of the two to itself). It removes every leading
  and every trailing byte the predicate accepts.
\<close>

definition isQuote :: "char \<Rightarrow> bool" where
  "isQuote r = (r = CHR 0x27 \<or> r = CHR 0x22)"

definition trimQuotes :: "string \<Rightarrow> string" where
  "trimQuotes clusterValue = rev (dropWhile isQuote (rev (dropWhile isQuote clusterValue)))"

text \<open>
  Modelled from the spec: \<open>utils.DeleteDoubleWhiteSpace\<close> is not among the sources. The
  spec: "Collapse redundant whitespace-derived empty tokens".
\<close>

definition DeleteDoubleWhiteSpace :: "string list \<Rightarrow> string list" where
  "DeleteDoubleWhiteSpace slice = filter (\<lambda>s. s \<noteq> []) slice"

text \<open>
  The loop of \<open>runKubectlCommand\<close> over the tokens still to be read. \<open>arg # rest\<close> is
  the current token and those after it, so \<open>index == len(args)-1\<close> is \<open>rest = []\<close> and
  \<open>args[index+1]\<close> is the head of \<open>rest\<close>.
\<close>

fun kubectl_loop ::
  "string \<Rightarrow> string list \<Rightarrow> bool \<Rightarrow> bool \<Rightarrow> string list \<Rightarrow> (string list \<times> bool) scan" where
  "kubectl_loop clusterName [] isClusterNameArg isAuthChannel finalArgs =
     Finished (finalArgs, isAuthChannel)"
| "kubectl_loop clusterName (arg # rest) isClusterNameArg isAuthChannel finalArgs =
     (if isClusterNameArg then kubectl_loop clusterName rest False isAuthChannel finalArgs
      else if arg = AbbrFollowFlag \<or> HasPrefix arg FollowFlag then
        kubectl_loop clusterName rest False isAuthChannel finalArgs
      else if arg = AbbrWatchFlag \<or> HasPrefix arg WatchFlag then
        kubectl_loop clusterName rest False isAuthChannel finalArgs
      else if HasPrefix arg ClusterFlag then
        (if arg = ClusterFlag then
           (case rest of
              [] \<Rightarrow> ReturnedEmpty
            | nxt # _ \<Rightarrow>
                if trimQuotes nxt \<noteq> clusterName then ReturnedEmpty
                else kubectl_loop clusterName rest True True finalArgs)
         else
           (case index (SplitAfterN arg (ClusterFlag @ ''='') 2) 1 of
              Inl e \<Rightarrow> Panicked e
            | Inr v \<Rightarrow>
                if trimQuotes v \<noteq> clusterName then ReturnedEmpty
                else kubectl_loop clusterName rest False True finalArgs))
      else kubectl_loop clusterName rest False isAuthChannel (finalArgs @ [arg]))"

definition runKubectlCommand ::
  "'c env \<Rightarrow> string list \<Rightarrow> string \<Rightarrow> bool \<Rightarrow> world \<Rightarrow> error + (string \<times> world)" where
  "runKubectlCommand env args clusterName isAuthChannel w =
     (let args' = [''-n'', ''default''] @ DeleteDoubleWhiteSpace args in
      case kubectl_loop clusterName args' False isAuthChannel [] of
        Panicked e \<Rightarrow> Inl e
      | ReturnedEmpty \<Rightarrow> Inr ('''', w)
      | Finished (finalArgs, isAuth) \<Rightarrow>
          if isAuth = False then Inr ('''', w)
          else
            (let (out, err) = run_command env kubectlBinary finalArgs;
                 w' = w\<lparr>runs := runs w @ [(kubectlBinary, finalArgs)]\<rparr>
             in case err of
                  Some e \<Rightarrow> Inr (Sprintf (''Cluster: %s'' @ [CHR 0x0A] @ ''%s'') [clusterName, out @ e], w')
                | None \<Rightarrow> Inr (Sprintf (''Cluster: %s'' @ [CHR 0x0A] @ ''%s'') [clusterName, out], w')))"

definition showControllerConfig :: "'c env \<Rightarrow> string + string" where
  "showControllerConfig env =
     (let configPath = getenv env ''CONFIG_PATH'' in
      case read_config env configPath of
        Inl err \<Rightarrow> Inl err
      | Inr b \<Rightarrow>
          (case (if length b \<noteq> 0 then yaml_unmarshal env b else Inr (zero_config env)) of
             Inl err \<Rightarrow> Inl err
           | Inr c \<Rightarrow>
               (let c1 = c\<lparr>SlackToken := ''''\<rparr>;
                    c2 = c1\<lparr>ElasticSearchPassword := ''''\<rparr>
                in case yaml_marshal env c2 of
                     Inl err \<Rightarrow> Inl err
                   | Inr b' \<Rightarrow> Inr b')))"

definition runNotifierCommand ::
  "'c env \<Rightarrow> string list \<Rightarrow> string \<Rightarrow> bool \<Rightarrow> world \<Rightarrow> string \<times> world" where
  "runNotifierCommand env args clusterName isAuthChannel w =
     (if isAuthChannel = False then ('''', w)
      else if length args < 2 then (incompleteCmdMsg, w)
      else if args ! 1 = Start then
        (Sprintf notifierStartMsg [clusterName], w\<lparr>Notify := True\<rparr>)
      else if args ! 1 = Stop then
        (Sprintf notifierStopMsg [clusterName], w\<lparr>Notify := False\<rparr>)
      else if args ! 1 = Status then
        (if Notify w = False then
           (Sprintf (''Notifications are off for cluster '%s'' @ [CHR 0x27]) [clusterName], w)
         else (Sprintf (''Notifications are on for cluster '%s'' @ [CHR 0x27]) [clusterName], w))
      else if args ! 1 = ShowConfig then
        (case showControllerConfig env of
           Inl err \<Rightarrow> (''Error in getting configuration!'', w)
         | Inr out \<Rightarrow>
             (Sprintf (''Showing config for cluster '%s'' @ [CHR 0x27, CHR 0x0A, CHR 0x0A] @ ''%s'')
                [clusterName, out], w))
      else (printDefaultMsg, w))"

text \<open>
  \<open>text/tabwriter\<close> as \<open>makeFiltersList\<close> uses it (\<open>minwidth\<close> 5, \<open>padding\<close> 1, padding
  byte space, left-aligned), on lines given as their cells: every cell but the last of
  a line ends in a tab and belongs to a column; a column is as wide as its widest cell
  plus the padding, and at least \<open>minwidth\<close>; the last cell of a line is written as it
  is. This is the writer's output when all lines have the same number of cells and no
  cell holds a tab, a line break, a form feed, a vertical tab or the escape byte 0xFF.
\<close>

definition columnWidth :: "string list list \<Rightarrow> nat \<Rightarrow> nat" where
  "columnWidth lines j = fold (\<lambda>line width. max width (RuneCount (line ! j) + 1)) lines 5"

fun writeCells :: "nat list \<Rightarrow> string list \<Rightarrow> string" where
  "writeCells widths [] = []"
| "writeCells widths [c] = c"
| "writeCells [] (c # cs) = c @ writeCells [] cs"
| "writeCells (width # widths) (c # cs) =
     c @ replicate (width - RuneCount c) (CHR '' '') @ writeCells widths cs"

definition tabwriter :: "string list list \<Rightarrow> string" where
  "tabwriter lines =
     (let widths = map (columnWidth lines) [0 ..< length (hd lines) - 1]
      in concat (map (\<lambda>line. writeCells widths line @ [CHR 0x0A]) lines))"

text \<open>
  \<open>makeFiltersList\<close>: the header, then one line for each entry of the map, in the order
  the \<open>range\<close> statement yields them.
\<close>

definition makeFiltersList :: "(Filter \<times> bool) list \<Rightarrow> string" where
  "makeFiltersList fs =
     tabwriter ([''FILTER'', ''ENABLED'', ''DESCRIPTION'']
                # map (\<lambda>(k, v). [FilterName k, showBool v, Describe k]) fs)"

definition runFilterCommand ::
  "'c env \<Rightarrow> string list \<Rightarrow> string \<Rightarrow> bool \<Rightarrow> world \<Rightarrow> string \<times> world" where
  "runFilterCommand env args clusterName isAuthChannel w =
     (if isAuthChannel = False then ('''', w)
      else if length args < 2 then (incompleteCmdMsg, w)
      else if args ! 1 = FilterList then (makeFiltersList (FiltersMap w), w)
      else if args ! 1 = FilterEnable then
        (if length args < 3 then (Sprintf filterNameMissing [makeFiltersList (FiltersMap w)], w)
         else case SetFilter (args ! 2) True (FiltersMap w) of
                None \<Rightarrow> (set_filter_error env, w)
              | Some fs \<Rightarrow> (Sprintf filterEnabled [args ! 2, clusterName], w\<lparr>FiltersMap := fs\<rparr>))
      else if args ! 1 = FilterDisable then
        (if length args < 3 then (Sprintf filterNameMissing [makeFiltersList (FiltersMap w)], w)
         else case SetFilter (args ! 2) False (FiltersMap w) of
                None \<Rightarrow> (set_filter_error env, w)
              | Some fs \<Rightarrow> (Sprintf filterDisabled [args ! 2, clusterName], w\<lparr>FiltersMap := fs\<rparr>))
      else (printDefaultMsg, w))"

definition findBotKubeVersion :: "'c env \<Rightarrow> world \<Rightarrow> string \<times> world" where
  "findBotKubeVersion env w =
     (let args = [''-c'', Sprintf ''%s version --short=true | grep Server'' [kubectlBinary]];
          (out, err) = run_command env ''sh'' args;
          w' = w\<lparr>runs := runs w @ [(''sh'', args)]\<rparr>;
          k8sVersion = (case err of
                          Some e \<Rightarrow> ''Server Version: Unknown'' @ [CHR 0x0A]
                        | None \<Rightarrow> out);
          botkubeVersion = getenv env ''BOTKUBE_VERSION'';
          botkubeVersion' = (if length botkubeVersion = 0 then ''Unknown'' else botkubeVersion)
      in (Sprintf ''K8s %sBotKube version: %s'' [k8sVersion, botkubeVersion'], w'))"

text \<open>The loop of \<open>runVersionCommand\<close>: it only decides between the exits.\<close>

fun version_loop :: "string \<Rightarrow> string list \<Rightarrow> bool \<Rightarrow> unit scan" where
  "version_loop clusterName [] checkFlag = Finished ()"
| "version_loop clusterName (arg # rest) checkFlag =
     (if checkFlag then
        (if arg \<noteq> clusterName then ReturnedEmpty else version_loop clusterName rest False)
      else if HasPrefix arg ClusterFlag then
        (if arg = ClusterFlag then version_loop clusterName rest True
         else case index (SplitAfterN arg (ClusterFlag @ ''='') 2) 1 of
                Inl e \<Rightarrow> Panicked e
              | Inr v \<Rightarrow>
                  if v \<noteq> clusterName then ReturnedEmpty
                  else version_loop clusterName rest checkFlag)
      else version_loop clusterName rest checkFlag)"

definition runVersionCommand ::
  "'c env \<Rightarrow> string list \<Rightarrow> string \<Rightarrow> world \<Rightarrow> error + (string \<times> world)" where
  "runVersionCommand env args clusterName w =
     (case version_loop clusterName args False of
        Panicked e \<Rightarrow> Inl e
      | ReturnedEmpty \<Rightarrow> Inr ('''', w)
      | Finished _ \<Rightarrow> Inr (findBotKubeVersion env w))"

text \<open>
  \<open>Execute\<close>. \<open>args[0]\<close> is read before any test of the length of \<open>args\<close>; the reads of
  \<open>args[0]\<close> after the first are in range.
\<close>

definition Execute :: "'c env \<Rightarrow> DefaultExecutor \<Rightarrow> world \<Rightarrow> error + (string \<times> world)" where
  "Execute env e w =
     (let args = Fields (Message e) in
      case index args 0 of
        Inl err \<Rightarrow> Inl err
      | Inr verb \<Rightarrow>
          if lookup validKubectlCommands verb then
            (if \<not> AllowKubectl e then Inr (Sprintf kubectlDisabledMsg [ClusterName e], w)
             else runKubectlCommand env args (ClusterName e) (IsAuthChannel e) w)
          else if lookup validNotifierCommand verb then
            Inr (runNotifierCommand env args (ClusterName e) (IsAuthChannel e) w)
          else if lookup validPingCommand verb then
            (case runVersionCommand env args (ClusterName e) w of
               Inl err \<Rightarrow> Inl err
             | Inr (res, w') \<Rightarrow>
                 if length res = 0 then Inr ('''', w')
                 else Inr (Sprintf (''pong from cluster '%s'' @ [CHR 0x27]) [ClusterName e]
                           @ [CHR 0x0A, CHR 0x0A] @ res, w'))
          else if lookup validVersionCommand verb then
            runVersionCommand env args (ClusterName e) w
          else if lookup validFilterCommand verb then
            Inr (runFilterCommand env args (ClusterName e) (IsAuthChannel e) w)
          else if IsAuthChannel e then Inr (unsupportedCmdMsg, w)
          else Inr ('''', w))"

section \<open>pkg/filters: the image tag checker\<close>

text \<open>
  The fields of \<open>events.Event\<close> (its declaration is not among the sources; these are the
  fields the sources use). \<open>TimeStamp\<close> is kept as Unix seconds and \<open>Level\<close> as its
  name.
\<close>

record Event =
  Kind :: string
  Type :: string
  Name :: string
  Namespace :: string
  Cluster :: string
  Channel :: string
  Title :: string
  Reason :: string
  Action :: string
  Messages :: "string list"
  Recommendations :: "string list"
  Warnings :: "string list"
  TimeStamp :: int
  Level :: string

text \<open>
  Modelled from the spec: \<open>config.CreateEvent\<close> is not among the sources. The spec lists
  the event types as create/update/delete/error/warning/info/normal.
\<close>

definition CreateEvent :: string where
  "CreateEvent = ''create''"

text \<open>
  The parts of a Kubernetes \<open>Pod\<close> the filter reads. The \<open>object\<close> argument is an
  \<open>interface{}\<close>: it holds a \<open>*Pod\<close>, which may be nil, or something else.
\<close>

record Container =
  ContainerName :: string
  Image :: string

record PodSpec =
  InitContainers :: "Container list"
  Containers :: "Container list"

record Pod =
  Spec :: PodSpec

datatype Object = PodPointer "Pod option" | OtherObject

text \<open>
  One of the two loops of \<open>ImageTagChecker.Run\<close>; they differ in the word
  (\<open>initContainer\<close> or \<open>Container\<close>) of the recommendation. \<open>strings.Split\<close> returns at
  least one piece, so \<open>images[1]\<close> is read only where it exists.
\<close>

fun checkImages :: "string \<Rightarrow> Container list \<Rightarrow> string list \<Rightarrow> string list" where
  "checkImages word [] recommendations = recommendations"
| "checkImages word (c # cs) recommendations =
     (let images = Split (Image c) '':'' in
      if length images = 1 \<or> images ! 1 = ''latest'' then
        checkImages word cs
          (recommendations @
           ['':latest tag used in image '' @ [CHR 0x27] @ Image c @ [CHR 0x27] @ '' of '' @ word
            @ '' '' @ [CHR 0x27] @ ContainerName c @ [CHR 0x27] @ '' should be avoided.''
            @ [CHR 0x0A]])
      else checkImages word cs recommendations)"

definition Run :: "Object \<Rightarrow> Event \<Rightarrow> error + Event" where
  "Run object event =
     (if Kind event \<noteq> ''Pod'' \<or> Type event \<noteq> CreateEvent then Inr event
      else case object of
             OtherObject \<Rightarrow> Inr event
           | PodPointer None \<Rightarrow> Inl NilPointerDereference
           | PodPointer (Some podObj) \<Rightarrow>
               Inr (event\<lparr>Recommendations :=
                      checkImages ''Container'' (Containers (Spec podObj))
                        (checkImages ''initContainer'' (InitContainers (Spec podObj))
                           (Recommendations event))\<rparr>))"

section \<open>Notions of the specification\<close>

text \<open>
  The specification's streaming and watch flags: "a streaming/follow flag (short or long
  form, with or without =value)" and "a watch flag (short or long form)".
\<close>

definition spec_streamFlag :: "string \<Rightarrow> bool" where
  "spec_streamFlag t =
     list_ex (\<lambda>f. t = f \<or> prefix (f @ ''='') t) [''-f'', ''--follow'', ''-w'', ''--watch'']"

text \<open>
  The tag of an image reference \<open>[registry[:port]/]name[:tag][@digest]\<close>: what follows
  the colon in the last component of the path, the digest left aside; \<open>None\<close> when the
  reference has no tag.
\<close>

definition spec_imageTag :: "string \<Rightarrow> string option" where
  "spec_imageTag img =
     (let reference = takeWhile (\<lambda>c. c \<noteq> CHR ''@'') img;
          component = rev (takeWhile (\<lambda>c. c \<noteq> CHR ''/'') (rev reference))
      in if CHR '':'' \<in> set component
         then Some (tl (dropWhile (\<lambda>c. c \<noteq> CHR '':'') component))
         else None)"

text \<open>
  The specification's "trimming a single layer of surrounding quote characters": one
  quote character less at the front if there is one, and one less at the end if there
  is one.
\<close>

definition spec_trimOneLayer :: "string \<Rightarrow> string" where
  "spec_trimOneLayer v =
     (let v1 = (if v \<noteq> [] \<and> isQuote (hd v) then tl v else v)
      in if v1 \<noteq> [] \<and> isQuote (last v1) then butlast v1 else v1)"

section \<open>Vocabulary of the statements\<close>

text \<open>
  The cluster-scope flag with value \<open>v\<close>, in its one-token and its two-token form.
\<close>

definition oneToken :: "string \<Rightarrow> string list" where
  "oneToken v = [ClusterFlag @ ''='' @ v]"

definition twoTokens :: "string \<Rightarrow> string list" where
  "twoTokens v = [ClusterFlag, v]"

text \<open>The tokens the loop of \<open>runKubectlCommand\<close> drops as follow or watch flags.\<close>

definition dropped :: "string \<Rightarrow> bool" where
  "dropped t = (t = AbbrFollowFlag \<or> HasPrefix t FollowFlag \<or> t = AbbrWatchFlag \<or> HasPrefix t WatchFlag)"

text \<open>
  A token sequence cut into segments. A segment is plain when it is one token that does
  not begin with \<open>--cluster-name\<close>; it is a matching flag when it is a cluster-scope
  flag, in either form, whose value is the cluster name after \<open>trimQuotes\<close>. The scan
  passes over both. \<open>kept\<close> is what is left of the plain segments once the follow and
  watch tokens are dropped.
\<close>

definition plain :: "string list \<Rightarrow> bool" where
  "plain s = (case s of [t] \<Rightarrow> \<not> HasPrefix t ClusterFlag | _ \<Rightarrow> False)"

definition matching :: "string \<Rightarrow> string list \<Rightarrow> bool" where
  "matching cn s =
     (case s of
        [t] \<Rightarrow> HasPrefix t (ClusterFlag @ ''='')
               \<and> trimQuotes (drop (length (ClusterFlag @ ''='')) t) = cn
      | [f, v] \<Rightarrow> f = ClusterFlag \<and> trimQuotes v = cn
      | _ \<Rightarrow> False)"

definition passing :: "string \<Rightarrow> string list \<Rightarrow> bool" where
  "passing cn s = (plain s \<or> matching cn s)"

definition kept :: "string list list \<Rightarrow> string list" where
  "kept segs = filter (\<lambda>t. \<not> dropped t) (concat (filter plain segs))"

text \<open>
  Text that \<open>text/tabwriter\<close> takes as part of one cell: no tab, line feed, vertical
  tab, form feed or escape byte in it.
\<close>

definition cellText :: "string \<Rightarrow> bool" where
  "cellText s = list_all (\<lambda>c. c \<notin> {CHR 0x09, CHR 0x0A, CHR 0x0B, CHR 0x0C, CHR 0xFF}) s"

section \<open>Sample collaborators and states\<close>

text \<open>
  A runner that prints \<open>ok\<close>, an empty environment, a configuration file of one line
  that the parser reads as the token and the password, and a renderer that prints the
  four fields.
\<close>

definition sample_config :: "string \<Rightarrow> Config" where
  "sample_config secret =
     \<lparr>SlackToken = secret, SlackChannel = ''general'', SlackNotifType = ''short'',
      ElasticSearchPassword = secret\<rparr>"

definition sample_env :: "string \<Rightarrow> unit env" where
  "sample_env file =
     \<lparr>run_command = (\<lambda>binary args. (''ok'', None)),
      getenv = (\<lambda>name. ''''),
      read_config = (\<lambda>path. Inr file),
      yaml_unmarshal = (\<lambda>b. Inr (sample_config b)),
      yaml_marshal = (\<lambda>c. Inr (''token: '' @ SlackToken c @ '' channel: '' @ SlackChannel c
                               @ '' notiftype: '' @ SlackNotifType c
                               @ '' password: '' @ ElasticSearchPassword c)),
      zero_config = sample_config '''',
      set_filter_error = ''Invalid filter name''\<rparr>"

definition sample_filters :: "(Filter \<times> bool) list" where
  "sample_filters =
     [(\<lparr>FilterName = ''NodeEventsChecker'', Describe = ''Sends notifications on node level critical events.''\<rparr>, False),
      (\<lparr>FilterName = ''ImageTagChecker'', Describe = ''Checks and adds recommendation if 'latest' image tag is used for container image.''\<rparr>, True)]"

definition sample_world :: world where
  "sample_world = \<lparr>Notify = True, FiltersMap = sample_filters, runs = []\<rparr>"

definition sample_executor :: "string \<Rightarrow> bool \<Rightarrow> bool \<Rightarrow> DefaultExecutor" where
  "sample_executor msg allowkubectl isAuthChannel =
     \<lparr>Message = msg, AllowKubectl = allowkubectl, ClusterName = ''prod'',
      ChannelName = ''general'', IsAuthChannel = isAuthChannel\<rparr>"

definition sample_event :: Event where
  "sample_event =
     \<lparr>Kind = ''Pod'', Type = ''create'', Name = ''web'', Namespace = ''default'',
      Cluster = ''prod'', Channel = '''', Title = ''resource created'', Reason = '''',
      Action = '''', Messages = [], Recommendations = [], Warnings = [],
      TimeStamp = 0, Level = ''info''\<rparr>"

definition sample_pod :: "string list \<Rightarrow> Object" where
  "sample_pod images =
     PodPointer (Some \<lparr>Spec = \<lparr>InitContainers = [],
        Containers = map (\<lambda>i. \<lparr>ContainerName = ''c'', Image = i\<rparr>) images\<rparr>\<rparr>)"

section \<open>Facts about the library functions\<close>

lemma fields_loop_nonempty:
  "\<forall>t\<in>set acc. t \<noteq> [] \<Longrightarrow> \<forall>t\<in>set (fields_loop k cur acc s). t \<noteq> []"
proof (induction k cur acc s rule: fields_loop.induct)
  case (1 k cur acc)
  then show ?case by simp
next
  case (2 k cur acc c cs)
  then show ?case by simp
next
  case (3 cur acc c cs)
  show ?case
  proof (cases "0 < spaceWidth (c # cs)")
    case True
    have "\<forall>t\<in>set (if cur = [] then acc else acc @ [cur]). t \<noteq> []"
      using "3.prems" by simp
    from "3.IH"(1) [OF refl True this] True show ?thesis
      by (simp only: fields_loop.simps Let_def if_True)
  next
    case False
    from "3.IH"(2) [OF refl False "3.prems"] False show ?thesis
      by (simp only: fields_loop.simps Let_def if_False)
  qed
qed

lemma Fields_nonempty: "t \<in> set (Fields s) \<Longrightarrow> t \<noteq> []"
  using fields_loop_nonempty [of "[]" 0 "[]" s] by (auto simp: Fields_def)

lemma DeleteDoubleWhiteSpace_Fields: "DeleteDoubleWhiteSpace (Fields s) = Fields s"
  unfolding DeleteDoubleWhiteSpace_def by (rule filter_True) (auto dest: Fields_nonempty)

lemma SplitAfterN_2:
  "s \<noteq> [] \<Longrightarrow> SplitAfterN s sep 2 =
     (case Index s sep of
        None \<Rightarrow> [s]
      | Some m \<Rightarrow> [take (m + length sep) s, drop (m + length sep) s])"
proof -
  assume "s \<noteq> []"
  then have "min 2 (length s + 1) - 1 = Suc 0"
    by (cases s) simp_all
  then show ?thesis
    by (simp add: SplitAfterN_def split: option.split)
qed

lemma Index_prefix: "Index (sep @ v) sep = Some 0"
proof (cases "sep @ v")
  case Nil
  then show ?thesis by simp
next
  case (Cons a list)
  have "prefix sep (sep @ v)" by simp
  with Cons show ?thesis by simp
qed

lemma Sprintf_kubectlDisabledMsg:
  "Sprintf kubectlDisabledMsg [cn] =
     ''Sorry, the admin hasn't given me the permission to execute kubectl command on cluster ''
     @ [CHR 0x27] @ cn @ [CHR 0x27] @ ''.''"
  by (simp add: kubectlDisabledMsg_def)

lemma Sprintf_Cluster:
  "Sprintf (''Cluster: %s'' @ [CHR 0x0A] @ ''%s'') [cn, out] = ''Cluster: '' @ cn @ [CHR 0x0A] @ out"
  by simp

section \<open>The verb tables\<close>

lemma lookup_kubectl_iff:
  "lookup validKubectlCommands verb \<longleftrightarrow>
     verb \<in> {''api-resources'', ''api-versions'', ''cluster-info'', ''describe'', ''diff'',
              ''explain'', ''get'', ''logs'', ''top'', ''auth''}"
  by (simp add: lookup_def validKubectlCommands_def)

lemma lookup_notifier_iff: "lookup validNotifierCommand verb \<longleftrightarrow> verb = ''notifier''"
  by (simp add: lookup_def validNotifierCommand_def)

lemma lookup_filter_iff: "lookup validFilterCommand verb \<longleftrightarrow> verb = ''filters''"
  by (simp add: lookup_def validFilterCommand_def)

lemma lookup_ping_iff: "lookup validPingCommand verb \<longleftrightarrow> verb = ''ping''"
  by (simp add: lookup_def validPingCommand_def)

lemma lookup_version_iff: "lookup validVersionCommand verb \<longleftrightarrow> verb = ''version''"
  by (simp add: lookup_def validVersionCommand_def)

section \<open>The loop of runKubectlCommand, one token at a time\<close>

lemma HasPrefix_ClusterFlag_nonempty: "HasPrefix arg ClusterFlag \<Longrightarrow> arg \<noteq> []"
  by (auto simp: HasPrefix_def ClusterFlag_def)

lemma kubectl_loop_dropped:
  "dropped arg \<Longrightarrow> kubectl_loop cn (arg # rest) False auth fin = kubectl_loop cn rest False auth fin"
  by (auto simp: dropped_def)

lemma kubectl_loop_forward:
  "\<not> dropped arg \<Longrightarrow> \<not> HasPrefix arg ClusterFlag \<Longrightarrow>
   kubectl_loop cn (arg # rest) False auth fin = kubectl_loop cn rest False auth (fin @ [arg])"
  by (auto simp: dropped_def)

lemma kubectl_loop_malformed:
  "\<not> dropped arg \<Longrightarrow> HasPrefix arg ClusterFlag \<Longrightarrow> arg \<noteq> ClusterFlag \<Longrightarrow>
   Index arg (ClusterFlag @ ''='') = None \<Longrightarrow>
   kubectl_loop cn (arg # rest) False auth fin = Panicked IndexOutOfRange"
  by (simp add: dropped_def SplitAfterN_2 HasPrefix_ClusterFlag_nonempty index_def)

lemma kubectl_loop_oneToken:
  "kubectl_loop cn ((ClusterFlag @ ''='' @ v) # rest) False auth fin =
     (if trimQuotes v \<noteq> cn then ReturnedEmpty else kubectl_loop cn rest False True fin)"
proof -
  let ?arg = "ClusterFlag @ ''='' @ v"
  have nd: "\<not> dropped ?arg"
    by (simp add: dropped_def ClusterFlag_def AbbrFollowFlag_def FollowFlag_def
        AbbrWatchFlag_def WatchFlag_def HasPrefix_def)
  have hp: "HasPrefix ?arg ClusterFlag" by (simp add: HasPrefix_def)
  have ne: "?arg \<noteq> ClusterFlag" by simp
  have "Index ((ClusterFlag @ ''='') @ v) (ClusterFlag @ ''='') = Some 0"
    by (rule Index_prefix)
  then have sp: "SplitAfterN ?arg (ClusterFlag @ ''='') 2 = [ClusterFlag @ ''='', v]"
    by (simp add: SplitAfterN_2)
  from nd have nd': "?arg \<noteq> AbbrFollowFlag" "\<not> HasPrefix ?arg FollowFlag"
      "?arg \<noteq> AbbrWatchFlag" "\<not> HasPrefix ?arg WatchFlag"
    by (simp_all add: dropped_def)
  show ?thesis
    by (simp only: kubectl_loop.simps nd' hp ne sp index_def if_False if_True simp_thms)
       simp
qed

lemma kubectl_loop_twoTokens:
  "kubectl_loop cn (ClusterFlag # v # rest) False auth fin =
     (if trimQuotes v \<noteq> cn then ReturnedEmpty else kubectl_loop cn rest False True fin)"
proof -
  have nd: "ClusterFlag \<noteq> AbbrFollowFlag" "\<not> HasPrefix ClusterFlag FollowFlag"
      "ClusterFlag \<noteq> AbbrWatchFlag" "\<not> HasPrefix ClusterFlag WatchFlag"
    by (simp_all add: ClusterFlag_def AbbrFollowFlag_def FollowFlag_def
        AbbrWatchFlag_def WatchFlag_def HasPrefix_def)
  have hp: "HasPrefix ClusterFlag ClusterFlag" by (simp add: HasPrefix_def)
  show ?thesis
    by (simp only: kubectl_loop.simps nd hp if_False if_True simp_thms list.case)
qed

lemma kubectl_loop_clean:
  "\<forall>t\<in>set pre. \<not> HasPrefix t ClusterFlag \<Longrightarrow>
   kubectl_loop cn (pre @ rest) False auth fin =
     kubectl_loop cn rest False auth (fin @ filter (\<lambda>t. \<not> dropped t) pre)"
proof (induction pre arbitrary: fin)
  case Nil
  then show ?case by simp
next
  case (Cons t pre)
  show ?case
  proof (cases "dropped t")
    case True
    with Cons show ?thesis
      by (simp add: kubectl_loop_dropped del: kubectl_loop.simps)
  next
    case False
    with Cons show ?thesis
      by (simp add: kubectl_loop_forward del: kubectl_loop.simps)
  qed
qed

declare kubectl_loop.simps [simp del]

lemma verb_kept:
  "lookup validKubectlCommands verb \<Longrightarrow> \<not> dropped verb \<and> \<not> HasPrefix verb ClusterFlag"
  by (auto simp: lookup_kubectl_iff dropped_def HasPrefix_def ClusterFlag_def AbbrFollowFlag_def
      FollowFlag_def AbbrWatchFlag_def WatchFlag_def)

lemma namespace_kept:
  "\<not> dropped ''-n''" "\<not> HasPrefix ''-n'' ClusterFlag"
  "\<not> dropped ''default''" "\<not> HasPrefix ''default'' ClusterFlag"
  by (simp_all add: dropped_def HasPrefix_def ClusterFlag_def AbbrFollowFlag_def
      FollowFlag_def AbbrWatchFlag_def WatchFlag_def)

text \<open>
  The start of every scan: the two namespace tokens and the verb are forwarded.
\<close>

lemma kubectl_loop_start:
  assumes "lookup validKubectlCommands verb"
  shows "kubectl_loop cn (''-n'' # ''default'' # verb # toks) False auth [] =
         kubectl_loop cn toks False auth [''-n'', ''default'', verb]"
  using verb_kept [OF assms] by (simp add: kubectl_loop_forward namespace_kept)

lemma Execute_kubectl:
  assumes "Fields (Message e) = verb # toks"
    and "lookup validKubectlCommands verb"
    and "AllowKubectl e"
  shows "Execute env e w =
     (case kubectl_loop (ClusterName e) toks False (IsAuthChannel e) [''-n'', ''default'', verb] of
        Panicked err \<Rightarrow> Inl err
      | ReturnedEmpty \<Rightarrow> Inr ([], w)
      | Finished (finalArgs, isAuth) \<Rightarrow>
          if \<not> isAuth then Inr ([], w)
          else Inr (''Cluster: '' @ ClusterName e @ [CHR 0x0A]
                    @ fst (run_command env kubectlBinary finalArgs)
                    @ (case snd (run_command env kubectlBinary finalArgs) of
                         None \<Rightarrow> [] | Some er \<Rightarrow> er),
                    w\<lparr>runs := runs w @ [(kubectlBinary, finalArgs)]\<rparr>))"
proof -
  have "DeleteDoubleWhiteSpace (verb # toks) = verb # toks"
    using DeleteDoubleWhiteSpace_Fields [of "Message e"] assms(1) by simp
  then show ?thesis
    using assms
    by (simp add: Execute_def index_def runKubectlCommand_def kubectl_loop_start
        Sprintf_Cluster split: scan.split option.split prod.split)
qed

section \<open>Routing\<close>

text \<open>
  Claim C4. For every message whose first token is a cluster-command verb, if passthrough
  is globally disabled then \<open>Execute\<close> returns the fixed not-permitted message with the
  cluster name filled in, and nothing else happens: the rest of the tokens is not looked
  at, the runner is not invoked and the state is unchanged, whether the channel is
  pre-authorized or not.
\<close>

theorem Execute_kubectl_disabled:
  assumes "Fields (Message e) = verb # rest"
    and "lookup validKubectlCommands verb"
    and "\<not> AllowKubectl e"
  shows "Execute env e w =
     Inr (''Sorry, the admin hasn't given me the permission to execute kubectl command on cluster ''
          @ [CHR 0x27] @ ClusterName e @ [CHR 0x27] @ ''.'', w)"
  using assms by (simp add: Execute_def index_def Sprintf_kubectlDisabledMsg)

theorem Execute_kubectl_disabled_witness:
  "Fields (Message (sample_executor ''get pods --cluster-names'' False True))
     = ''get'' # [''pods'', ''--cluster-names'']
   \<and> lookup validKubectlCommands ''get''
   \<and> \<not> AllowKubectl (sample_executor ''get pods --cluster-names'' False True)
   \<and> Execute (sample_env []) (sample_executor ''get pods --cluster-names'' False True) sample_world
       = Inr (''Sorry, the admin hasn't given me the permission to execute kubectl command on cluster 'prod'.'',
              sample_world)"
proof -
  have h1: "Fields (Message (sample_executor ''get pods --cluster-names'' False True))
     = ''get'' # [''pods'', ''--cluster-names'']"
    by (simp add: sample_executor_def Fields_def spaceWidth_def)
  have h2: "lookup validKubectlCommands ''get''"
    by (simp add: lookup_kubectl_iff)
  have h3: "\<not> AllowKubectl (sample_executor ''get pods --cluster-names'' False True)"
    by (simp add: sample_executor_def)
  show ?thesis
    using Execute_kubectl_disabled [OF h1 h2 h3, of "sample_env []" sample_world] h1 h2 h3
    by (simp add: sample_executor_def)
qed

text \<open>
  Claim C9. For every message that has a first token, when that token is in none of the
  five verb tables, \<open>Execute\<close> returns the fixed unsupported-command message if the
  channel is pre-authorized and the empty string otherwise; the state is unchanged.
\<close>

theorem Execute_unsupported:
  assumes "Fields (Message e) = verb # rest"
    and "\<not> lookup validKubectlCommands verb"
    and "\<not> lookup validNotifierCommand verb"
    and "\<not> lookup validFilterCommand verb"
    and "\<not> lookup validPingCommand verb"
    and "\<not> lookup validVersionCommand verb"
  shows "Execute env e w =
     Inr (if IsAuthChannel e
          then ''Command not supported. Please run /botkubehelp to see supported commands.''
          else [], w)"
  using assms by (simp add: Execute_def index_def unsupportedCmdMsg_def)

theorem Execute_unsupported_witness:
  "Fields (Message (sample_executor ''deploy app'' True True)) = ''deploy'' # [''app'']
   \<and> \<not> lookup validKubectlCommands ''deploy''
   \<and> \<not> lookup validNotifierCommand ''deploy''
   \<and> \<not> lookup validFilterCommand ''deploy''
   \<and> \<not> lookup validPingCommand ''deploy''
   \<and> \<not> lookup validVersionCommand ''deploy''
   \<and> Execute (sample_env []) (sample_executor ''deploy app'' True True) sample_world
       = Inr (''Command not supported. Please run /botkubehelp to see supported commands.'',
              sample_world)
   \<and> Execute (sample_env []) (sample_executor ''deploy app'' True False) sample_world
       = Inr ([], sample_world)"
proof -
  have h1: "Fields (Message (sample_executor ''deploy app'' True b)) = ''deploy'' # [''app'']" for b
    by (simp add: sample_executor_def Fields_def spaceWidth_def)
  have h2: "\<not> lookup validKubectlCommands ''deploy''"
    by (simp add: lookup_kubectl_iff)
  have h3: "\<not> lookup validNotifierCommand ''deploy''"
    by (simp add: lookup_notifier_iff)
  have h4: "\<not> lookup validFilterCommand ''deploy''"
    by (simp add: lookup_filter_iff)
  have h5: "\<not> lookup validPingCommand ''deploy''"
    by (simp add: lookup_ping_iff)
  have h6: "\<not> lookup validVersionCommand ''deploy''"
    by (simp add: lookup_version_iff)
  show ?thesis
    using Execute_unsupported [OF h1 [of True] h2 h3 h4 h5 h6, of "sample_env []" sample_world]
      Execute_unsupported [OF h1 [of False] h2 h3 h4 h5 h6, of "sample_env []" sample_world]
      h1 [of True] h2 h3 h4 h5 h6
    by (simp add: sample_executor_def)
qed

text \<open>
  Claim C10. For every notifier-toggle command and every filter-admin command issued
  from a channel that is not pre-authorized, \<open>Execute\<close> returns the empty string and the
  state it returns is the state it was given: \<open>Notify\<close> keeps its value and no enabled
  flag of \<open>FiltersMap\<close> changes.
\<close>

theorem Execute_unauthorized_admin_silent:
  assumes "Fields (Message e) = verb # rest"
    and "lookup validNotifierCommand verb \<or> lookup validFilterCommand verb"
    and "\<not> IsAuthChannel e"
  shows "Execute env e w = Inr ([], w)"
proof -
  from assms(2) consider "verb = ''notifier''" | "verb = ''filters''"
    by (auto simp: lookup_notifier_iff lookup_filter_iff)
  then show ?thesis
  proof cases
    case 1
    with assms(1,3) show ?thesis
      by (simp add: Execute_def index_def lookup_kubectl_iff lookup_notifier_iff
          runNotifierCommand_def)
  next
    case 2
    with assms(1,3) show ?thesis
      by (simp add: Execute_def index_def lookup_kubectl_iff lookup_notifier_iff
          lookup_ping_iff lookup_version_iff lookup_filter_iff runFilterCommand_def)
  qed
qed

theorem Execute_unauthorized_admin_silent_witness:
  "Fields (Message (sample_executor ''notifier stop'' True False)) = ''notifier'' # [''stop'']
   \<and> (lookup validNotifierCommand ''notifier'' \<or> lookup validFilterCommand ''notifier'')
   \<and> \<not> IsAuthChannel (sample_executor ''notifier stop'' True False)
   \<and> Execute (sample_env []) (sample_executor ''notifier stop'' True False) sample_world
       = Inr ([], sample_world)"
proof -
  have h1: "Fields (Message (sample_executor ''notifier stop'' True False)) = ''notifier'' # [''stop'']"
    by (simp add: sample_executor_def Fields_def spaceWidth_def)
  have h2: "lookup validNotifierCommand ''notifier'' \<or> lookup validFilterCommand ''notifier''"
    by (simp add: lookup_notifier_iff)
  have h3: "\<not> IsAuthChannel (sample_executor ''notifier stop'' True False)"
    by (simp add: sample_executor_def)
  show ?thesis
    using Execute_unauthorized_admin_silent [OF h1 h2 h3, of "sample_env []" sample_world] h1 h2 h3
    by simp
qed

text \<open>
  Claim C1 says that \<open>Execute\<close> returns a text or the empty string for every message and
  that no panic escapes. The code reads \<open>args[0]\<close> before any test of the length of
  \<open>args\<close>, so the empty message and a message of white space panic; and it reads the
  second piece of a token that begins with \<open>--cluster-name\<close> without testing that the
  token holds \<open>--cluster-name=\<close>, so such a token panics as well.
\<close>

theorem Execute_panics:
  "Execute env (e\<lparr>Message := []\<rparr>) w = Inl IndexOutOfRange
   \<and> Execute env (e\<lparr>Message := ''   ''\<rparr>) w = Inl IndexOutOfRange
   \<and> Execute env (e\<lparr>Message := ''get pods --cluster-names prod'', AllowKubectl := True\<rparr>) w
       = Inl IndexOutOfRange"
proof -
  have a: "Fields [] = []" by (simp add: Fields_def)
  have b: "Fields ''   '' = []" by (simp add: Fields_def spaceWidth_def)
  have c: "Fields (Message (e\<lparr>Message := ''get pods --cluster-names prod'', AllowKubectl := True\<rparr>))
             = ''get'' # [''pods'', ''--cluster-names'', ''prod'']"
    by (simp add: Fields_def spaceWidth_def)
  have g: "lookup validKubectlCommands ''get''" by (simp add: lookup_kubectl_iff)
  have k1: "\<not> dropped ''pods''" "\<not> HasPrefix ''pods'' ClusterFlag"
    by (simp_all add: dropped_def HasPrefix_def ClusterFlag_def AbbrFollowFlag_def
        FollowFlag_def AbbrWatchFlag_def WatchFlag_def)
  have k2: "\<not> dropped ''--cluster-names''" "HasPrefix ''--cluster-names'' ClusterFlag"
      "''--cluster-names'' \<noteq> ClusterFlag" "Index ''--cluster-names'' (ClusterFlag @ ''='') = None"
    by (simp_all add: dropped_def HasPrefix_def ClusterFlag_def AbbrFollowFlag_def
        FollowFlag_def AbbrWatchFlag_def WatchFlag_def)
  have d: "kubectl_loop cn [''pods'', ''--cluster-names'', ''prod''] False auth fin
             = Panicked IndexOutOfRange" for cn auth fin
    by (simp add: kubectl_loop_forward [OF k1] kubectl_loop_malformed [OF k2])
  have "Execute env (e\<lparr>Message := ''get pods --cluster-names prod'', AllowKubectl := True\<rparr>) w
       = Inl IndexOutOfRange"
    by (simp add: Execute_kubectl [OF c g] d)
  then show ?thesis
    by (simp add: Execute_def index_def a b)
qed

section \<open>Cluster scoping and sanitization\<close>

lemma kubectl_loop_flag:
  assumes "flag = oneToken v \<or> flag = twoTokens v"
    and "\<forall>t\<in>set pre. \<not> HasPrefix t ClusterFlag"
  shows "kubectl_loop cn (pre @ flag @ post) False auth fin =
     (if trimQuotes v \<noteq> cn then ReturnedEmpty
      else kubectl_loop cn post False True (fin @ filter (\<lambda>t. \<not> dropped t) pre))"
proof -
  have "kubectl_loop cn (flag @ post) False auth fin' =
     (if trimQuotes v \<noteq> cn then ReturnedEmpty else kubectl_loop cn post False True fin')" for fin'
    using assms(1)
  proof
    assume "flag = oneToken v"
    then have "flag @ post = (ClusterFlag @ ''='' @ v) # post"
      by (simp add: oneToken_def)
    then show ?thesis by (simp only: kubectl_loop_oneToken)
  next
    assume "flag = twoTokens v"
    then have "flag @ post = ClusterFlag # v # post"
      by (simp add: twoTokens_def)
    then show ?thesis by (simp only: kubectl_loop_twoTokens)
  qed
  then show ?thesis
    by (simp only: kubectl_loop_clean [OF assms(2)])
qed

lemma kubectl_loop_clean_all:
  assumes "\<forall>t\<in>set toks. \<not> HasPrefix t ClusterFlag"
  shows "kubectl_loop cn toks False auth fin = Finished (fin @ filter (\<lambda>t. \<not> dropped t) toks, auth)"
  using kubectl_loop_clean [OF assms, of cn "[]" auth fin] by (simp add: kubectl_loop.simps)

lemma kubectl_loop_cluster_step:
  assumes "\<not> dropped t" and "HasPrefix t ClusterFlag"
    and "kubectl_loop cn (t # toks) False auth fin = Finished r"
  shows "\<exists>skip'. kubectl_loop cn toks skip' True fin = Finished r"
proof -
  from assms(1) have nd: "t \<noteq> AbbrFollowFlag" "\<not> HasPrefix t FollowFlag"
      "t \<noteq> AbbrWatchFlag" "\<not> HasPrefix t WatchFlag"
    by (simp_all add: dropped_def)
  from assms(3) show ?thesis
    apply (subst (asm) kubectl_loop.simps(2))
    apply (simp only: nd assms(2) if_False if_True simp_thms)
    apply (auto split: if_splits list.splits sum.splits)
    done
qed

text \<open>
  Whatever the scan forwards, it forwards no token that is \<open>-f\<close> or \<open>-w\<close> or begins
  with \<open>--follow\<close> or \<open>--watch\<close>.
\<close>

lemma kubectl_loop_forwards_no_dropped:
  "kubectl_loop cn toks skip auth fin = Finished (finalArgs, a) \<Longrightarrow>
   \<forall>t\<in>set fin. \<not> dropped t \<Longrightarrow> \<forall>t\<in>set finalArgs. \<not> dropped t"
proof (induction toks arbitrary: skip auth fin)
  case Nil
  then show ?case by (simp add: kubectl_loop.simps)
next
  case (Cons t toks)
  show ?case
  proof (cases skip)
    case True
    with Cons.prems have "kubectl_loop cn toks False auth fin = Finished (finalArgs, a)"
      by (simp add: kubectl_loop.simps)
    from Cons.IH [OF this Cons.prems(2)] show ?thesis .
  next
    case False
    note noskip = this
    show ?thesis
    proof (cases "dropped t")
      case True
      with noskip Cons.prems have "kubectl_loop cn toks False auth fin = Finished (finalArgs, a)"
        by (simp add: kubectl_loop_dropped)
      from Cons.IH [OF this Cons.prems(2)] show ?thesis .
    next
      case nd: False
      show ?thesis
      proof (cases "HasPrefix t ClusterFlag")
        case False
        with nd noskip Cons.prems
        have "kubectl_loop cn toks False auth (fin @ [t]) = Finished (finalArgs, a)"
          by (simp add: kubectl_loop_forward)
        moreover have "\<forall>u\<in>set (fin @ [t]). \<not> dropped u"
          using Cons.prems(2) nd by simp
        ultimately show ?thesis by (rule Cons.IH)
      next
        case True
        from Cons.prems(1) noskip
        have "kubectl_loop cn (t # toks) False auth fin = Finished (finalArgs, a)" by simp
        from kubectl_loop_cluster_step [OF nd True this]
        obtain skip' where "kubectl_loop cn toks skip' True fin = Finished (finalArgs, a)" ..
        from Cons.IH [OF this Cons.prems(2)] show ?thesis .
      qed
    qed
  qed
qed

lemma Execute_flag_differs:
  assumes "Fields (Message e) = verb # pre @ flag @ post"
    and "lookup validKubectlCommands verb"
    and "AllowKubectl e"
    and "flag = oneToken v \<or> flag = twoTokens v"
    and "\<forall>t\<in>set pre. \<not> HasPrefix t ClusterFlag"
    and "trimQuotes v \<noteq> ClusterName e"
  shows "Execute env e w = Inr ([], w)"
  using assms(6) kubectl_loop_flag [OF assms(4,5), of "ClusterName e" post "IsAuthChannel e"
      "[''-n'', ''default'', verb]"]
  by (simp add: Execute_kubectl [OF assms(1-3)])

lemma Execute_flag_equals:
  assumes "Fields (Message e) = verb # pre @ flag @ post"
    and "lookup validKubectlCommands verb"
    and "AllowKubectl e"
    and "flag = oneToken v \<or> flag = twoTokens v"
    and "\<forall>t\<in>set pre. \<not> HasPrefix t ClusterFlag"
    and "trimQuotes v = ClusterName e"
    and "\<forall>t\<in>set post. \<not> HasPrefix t ClusterFlag"
    and "fa = ''-n'' # ''default'' # verb # filter (\<lambda>t. \<not> dropped t) (pre @ post)"
  shows "Execute env e w =
      Inr (''Cluster: '' @ ClusterName e @ [CHR 0x0A] @ fst (run_command env kubectlBinary fa)
           @ (case snd (run_command env kubectlBinary fa) of None \<Rightarrow> [] | Some er \<Rightarrow> er),
           w\<lparr>runs := runs w @ [(kubectlBinary, fa)]\<rparr>)"
proof -
  have "kubectl_loop (ClusterName e) (pre @ flag @ post) False (IsAuthChannel e)
          [''-n'', ''default'', verb] = Finished (fa, True)"
    using assms(6,8) kubectl_loop_flag [OF assms(4,5), of "ClusterName e" post "IsAuthChannel e"
      "[''-n'', ''default'', verb]"]
      kubectl_loop_clean_all [OF assms(7), of "ClusterName e" True]
    by simp
  then show ?thesis
    by (simp add: Execute_kubectl [OF assms(1-3)])
qed

lemma Execute_no_flag:
  assumes "Fields (Message e) = verb # toks"
    and "lookup validKubectlCommands verb"
    and "AllowKubectl e"
    and "\<forall>t\<in>set toks. \<not> HasPrefix t ClusterFlag"
    and "fa = ''-n'' # ''default'' # verb # filter (\<lambda>t. \<not> dropped t) toks"
  shows "Execute env e w =
      (if IsAuthChannel e then
         Inr (''Cluster: '' @ ClusterName e @ [CHR 0x0A] @ fst (run_command env kubectlBinary fa)
              @ (case snd (run_command env kubectlBinary fa) of None \<Rightarrow> [] | Some er \<Rightarrow> er),
              w\<lparr>runs := runs w @ [(kubectlBinary, fa)]\<rparr>)
       else Inr ([], w))"
  using assms(5) kubectl_loop_clean_all [OF assms(4), of "ClusterName e" "IsAuthChannel e"
      "[''-n'', ''default'', verb]"]
  by (simp add: Execute_kubectl [OF assms(1-3)])

lemma sample_tokens_kept:
  "\<not> HasPrefix ''pods'' ClusterFlag" "\<not> dropped ''pods''"
  "\<not> HasPrefix ''pod1'' ClusterFlag" "\<not> dropped ''pod1''"
  "\<not> HasPrefix ''-o'' ClusterFlag" "\<not> dropped ''-o''"
  "\<not> HasPrefix ''yaml'' ClusterFlag" "\<not> dropped ''yaml''"
  "\<not> HasPrefix ''-f=true'' ClusterFlag" "\<not> dropped ''-f=true''"
  "\<not> HasPrefix ''-f'' ClusterFlag" "dropped ''-f''"
  by (simp_all add: dropped_def HasPrefix_def ClusterFlag_def AbbrFollowFlag_def
      FollowFlag_def AbbrWatchFlag_def WatchFlag_def)

lemma sample_env_simps:
  "run_command (sample_env file) = (\<lambda>binary args. (''ok'', None))"
  by (simp add: sample_env_def)

lemma sample_executor_simps:
  "Message (sample_executor msg a i) = msg"
  "AllowKubectl (sample_executor msg a i) = a"
  "ClusterName (sample_executor msg a i) = ''prod''"
  "ChannelName (sample_executor msg a i) = ''general''"
  "IsAuthChannel (sample_executor msg a i) = i"
  by (simp_all add: sample_executor_def)

section \<open>Quotes and segments\<close>

text \<open>
  \<open>trimQuotes\<close> takes away all the quote characters in front of the value and all those
  behind it, however many layers, and leaves what is between them, quotes inside
  included.
\<close>

lemma trimQuotes_layers:
  assumes "set ql \<subseteq> {CHR 0x27, CHR 0x22}"
    and "set qr \<subseteq> {CHR 0x27, CHR 0x22}"
    and "core = [] \<or> (hd core \<notin> {CHR 0x27, CHR 0x22} \<and> last core \<notin> {CHR 0x27, CHR 0x22})"
  shows "trimQuotes (ql @ core @ qr) = core"
proof -
  have ql: "\<And>c. c \<in> set ql \<Longrightarrow> isQuote c"
    using assms(1) by (auto simp: isQuote_def)
  show ?thesis
  proof (cases core)
    case Nil
    have "\<forall>c\<in>set (ql @ qr). isQuote c"
      using assms(1,2) by (auto simp: isQuote_def)
    then have "dropWhile isQuote (ql @ qr) = []"
      by (simp only: dropWhile_eq_Nil_conv)
    then have "trimQuotes (ql @ qr) = []"
      unfolding trimQuotes_def by (simp only: rev.simps dropWhile.simps)
    with Nil show ?thesis by simp
  next
    case (Cons c cs)
    with assms(3) have hd: "\<not> isQuote c" and lst: "\<not> isQuote (last core)"
      by (auto simp: isQuote_def)
    have front: "dropWhile isQuote (ql @ core @ qr) = core @ qr"
      using hd Cons by (simp add: dropWhile_append2 [OF ql])
    from Cons obtain bs l where bl: "core = bs @ [l]"
      by (metis list.distinct(1) rev_exhaust)
    with lst have "\<not> isQuote l" by simp
    then have "dropWhile isQuote (l # rev bs) = l # rev bs" by simp
    then have "dropWhile isQuote (rev core) = rev core"
      by (simp only: bl rev_append rev.simps append_Nil append_Cons)
    moreover have "dropWhile isQuote (rev qr @ rev core) = dropWhile isQuote (rev core)"
      by (rule dropWhile_append2) (use assms(2) in \<open>auto simp: isQuote_def\<close>)
    ultimately have "dropWhile isQuote (rev (core @ qr)) = rev core"
      by (simp only: rev_append)
    with front show ?thesis by (simp add: trimQuotes_def)
  qed
qed

lemma kubectl_loop_trailing:
  "kubectl_loop cn [ClusterFlag] False auth fin = ReturnedEmpty"
proof -
  have nd: "ClusterFlag \<noteq> AbbrFollowFlag" "\<not> HasPrefix ClusterFlag FollowFlag"
      "ClusterFlag \<noteq> AbbrWatchFlag" "\<not> HasPrefix ClusterFlag WatchFlag"
    by (simp_all add: ClusterFlag_def AbbrFollowFlag_def FollowFlag_def
        AbbrWatchFlag_def WatchFlag_def HasPrefix_def)
  have hp: "HasPrefix ClusterFlag ClusterFlag" by (simp add: HasPrefix_def)
  show ?thesis
    by (simp only: kubectl_loop.simps nd hp if_False if_True simp_thms list.case)
qed

lemma kubectl_loop_segment:
  assumes "passing cn s"
  shows "\<exists>auth'. (auth \<longrightarrow> auth')
           \<and> kubectl_loop cn (s @ rest) False auth fin =
               kubectl_loop cn rest False auth' (fin @ kept [s])"
proof (cases "plain s")
  case True
  then obtain t where s: "s = [t]" and t: "\<not> HasPrefix t ClusterFlag"
    by (auto simp: plain_def split: list.splits)
  show ?thesis
  proof (cases "dropped t")
    case True
    with s t \<open>plain s\<close> have "kubectl_loop cn (s @ rest) False auth fin =
        kubectl_loop cn rest False auth (fin @ kept [s])"
      by (simp add: kept_def kubectl_loop_dropped)
    then show ?thesis by blast
  next
    case False
    with s t \<open>plain s\<close> have "kubectl_loop cn (s @ rest) False auth fin =
        kubectl_loop cn rest False auth (fin @ kept [s])"
      by (simp add: kept_def kubectl_loop_forward)
    then show ?thesis by blast
  qed
next
  case False
  with assms have m: "matching cn s" by (simp add: passing_def)
  from False have k: "kept [s] = []" by (simp add: kept_def)
  from m consider t where "s = [t]" "HasPrefix t (ClusterFlag @ ''='')"
      "trimQuotes (drop (length (ClusterFlag @ ''='')) t) = cn"
    | v where "s = [ClusterFlag, v]" "trimQuotes v = cn"
    by (auto simp: matching_def split: list.splits)
  then show ?thesis
  proof cases
    case 1
    define v where "v = drop (length (ClusterFlag @ ''='')) t"
    from 1(2) have "t = (ClusterFlag @ ''='') @ v"
      by (auto simp: HasPrefix_def prefix_def v_def)
    then have t: "t = ClusterFlag @ ''='' @ v" by simp
    from 1(3) have tv: "trimQuotes v = cn" by (simp add: v_def)
    have "kubectl_loop cn ((ClusterFlag @ ''='' @ v) # rest) False auth fin =
            kubectl_loop cn rest False True fin"
      unfolding kubectl_loop_oneToken using tv by simp
    moreover have "s @ rest = (ClusterFlag @ ''='' @ v) # rest"
      using 1(1) t by simp
    ultimately have "kubectl_loop cn (s @ rest) False auth fin =
        kubectl_loop cn rest False True (fin @ kept [s])"
      using k by (simp only: append_Nil2)
    then show ?thesis by blast
  next
    case 2
    then have "kubectl_loop cn (s @ rest) False auth fin = kubectl_loop cn rest False True (fin @ kept [s])"
      using k by (simp add: kubectl_loop_twoTokens)
    then show ?thesis by blast
  qed
qed

lemma kept_Cons: "kept (s # segs) = kept [s] @ kept segs"
  by (simp add: kept_def)

lemma kubectl_loop_segments:
  assumes "\<forall>s\<in>set segs. passing cn s"
  shows "\<exists>auth'. (auth \<longrightarrow> auth')
           \<and> kubectl_loop cn (concat segs @ rest) False auth fin =
               kubectl_loop cn rest False auth' (fin @ kept segs)"
  using assms
proof (induction segs arbitrary: auth fin)
  case Nil
  then show ?case by (auto simp: kept_def)
next
  case (Cons s segs)
  then have ps: "passing cn s" and rest: "\<forall>s\<in>set segs. passing cn s" by simp_all
  from kubectl_loop_segment [OF ps, of auth "concat segs @ rest" fin]
  obtain a1 where a1: "auth \<longrightarrow> a1"
    and s1: "kubectl_loop cn (s @ concat segs @ rest) False auth fin =
               kubectl_loop cn (concat segs @ rest) False a1 (fin @ kept [s])"
    by blast
  from Cons.IH [OF rest, of a1 "fin @ kept [s]"]
  obtain a2 where a2: "a1 \<longrightarrow> a2"
    and s2: "kubectl_loop cn (concat segs @ rest) False a1 (fin @ kept [s]) =
               kubectl_loop cn rest False a2 ((fin @ kept [s]) @ kept segs)"
    by blast
  from a1 a2 have "auth \<longrightarrow> a2" by blast
  moreover from s1 s2 have "kubectl_loop cn (concat (s # segs) @ rest) False auth fin =
      kubectl_loop cn rest False a2 (fin @ kept (s # segs))"
    by (simp add: kept_Cons [of s segs])
  ultimately show ?case by blast
qed

lemma kubectl_loop_flag_here:
  assumes "flag = oneToken v \<or> flag = twoTokens v"
  shows "kubectl_loop cn (flag @ post) False auth fin =
     (if trimQuotes v \<noteq> cn then ReturnedEmpty else kubectl_loop cn post False True fin)"
  using kubectl_loop_flag [OF assms, of "[]" cn post auth fin] by simp

lemma Execute_segments_differs:
  assumes "Fields (Message e) = verb # concat segs @ flag @ post"
    and "lookup validKubectlCommands verb"
    and "AllowKubectl e"
    and "\<forall>s\<in>set segs. passing (ClusterName e) s"
    and "flag = oneToken v \<or> flag = twoTokens v"
    and "trimQuotes v \<noteq> ClusterName e"
  shows "Execute env e w = Inr ([], w)"
proof -
  from kubectl_loop_segments [OF assms(4), of "IsAuthChannel e" "flag @ post"
      "[''-n'', ''default'', verb]"]
  obtain a where "kubectl_loop (ClusterName e) (concat segs @ flag @ post) False (IsAuthChannel e)
        [''-n'', ''default'', verb] =
      kubectl_loop (ClusterName e) (flag @ post) False a ([''-n'', ''default'', verb] @ kept segs)"
    by blast
  then have "kubectl_loop (ClusterName e) (concat segs @ flag @ post) False (IsAuthChannel e)
        [''-n'', ''default'', verb] = ReturnedEmpty"
    using assms(6) by (simp add: kubectl_loop_flag_here [OF assms(5)])
  then show ?thesis
    by (simp add: Execute_kubectl [OF assms(1-3)])
qed

lemma Execute_segments_trailing:
  assumes "Fields (Message e) = verb # concat segs @ [ClusterFlag]"
    and "lookup validKubectlCommands verb"
    and "AllowKubectl e"
    and "\<forall>s\<in>set segs. passing (ClusterName e) s"
  shows "Execute env e w = Inr ([], w)"
proof -
  from kubectl_loop_segments [OF assms(4), of "IsAuthChannel e" "[ClusterFlag]"
      "[''-n'', ''default'', verb]"]
  obtain a where "kubectl_loop (ClusterName e) (concat segs @ [ClusterFlag]) False (IsAuthChannel e)
        [''-n'', ''default'', verb] =
      kubectl_loop (ClusterName e) [ClusterFlag] False a ([''-n'', ''default'', verb] @ kept segs)"
    by blast
  then have "kubectl_loop (ClusterName e) (concat segs @ [ClusterFlag]) False (IsAuthChannel e)
        [''-n'', ''default'', verb] = ReturnedEmpty"
    by (simp only: kubectl_loop_trailing)
  then show ?thesis
    by (simp add: Execute_kubectl [OF assms(1-3)])
qed

lemma Execute_segments_equals:
  assumes "Fields (Message e) = verb # concat lead @ flag @ concat trail"
    and "lookup validKubectlCommands verb"
    and "AllowKubectl e"
    and "\<forall>s\<in>set lead. passing (ClusterName e) s"
    and "flag = oneToken v \<or> flag = twoTokens v"
    and "trimQuotes v = ClusterName e"
    and "\<forall>s\<in>set trail. passing (ClusterName e) s"
    and "fa = ''-n'' # ''default'' # verb # kept lead @ kept trail"
  shows "Execute env e w =
      Inr (''Cluster: '' @ ClusterName e @ [CHR 0x0A] @ fst (run_command env kubectlBinary fa)
           @ (case snd (run_command env kubectlBinary fa) of None \<Rightarrow> [] | Some er \<Rightarrow> er),
           w\<lparr>runs := runs w @ [(kubectlBinary, fa)]\<rparr>)"
proof -
  let ?cn = "ClusterName e"
  from kubectl_loop_segments [OF assms(4), of "IsAuthChannel e" "flag @ concat trail"
      "[''-n'', ''default'', verb]"]
  obtain a where s1: "kubectl_loop ?cn (concat lead @ flag @ concat trail) False (IsAuthChannel e)
        [''-n'', ''default'', verb] =
      kubectl_loop ?cn (flag @ concat trail) False a ([''-n'', ''default'', verb] @ kept lead)"
    by blast
  have s2: "kubectl_loop ?cn (flag @ concat trail) False a ([''-n'', ''default'', verb] @ kept lead) =
      kubectl_loop ?cn (concat trail) False True ([''-n'', ''default'', verb] @ kept lead)"
    using assms(6) by (simp add: kubectl_loop_flag_here [OF assms(5)])
  from kubectl_loop_segments [OF assms(7), of True "[]" "[''-n'', ''default'', verb] @ kept lead"]
  have s3: "kubectl_loop ?cn (concat trail) False True ([''-n'', ''default'', verb] @ kept lead) =
      kubectl_loop ?cn [] False True (([''-n'', ''default'', verb] @ kept lead) @ kept trail)"
    by auto
  have "kubectl_loop ?cn (concat lead @ flag @ concat trail) False (IsAuthChannel e)
        [''-n'', ''default'', verb] = Finished (fa, True)"
    unfolding s1 s2 s3 using assms(8) by (simp add: kubectl_loop.simps)
  then show ?thesis
    by (simp add: Execute_kubectl [OF assms(1-3)])
qed

lemma sample_segments:
  "passing ''prod'' [''pods'']" "passing ''prod'' [''-w'']" "passing ''prod'' [''-o'']"
  "passing ''prod'' [''yaml'']" "passing ''prod'' [''--cluster-name'', ''prod'']"
  "passing ''prod'' [''--cluster-name=prod'']"
  "kept [[''pods''], [''-w'']] = [''pods'']"
  "kept [[''-o''], [''yaml''], [''--cluster-name'', ''prod'']] = [''-o'', ''yaml'']"
  "kept [[''pods'']] = [''pods'']"
  "kept [[''pods''], [''--cluster-name=prod'']] = [''pods'']"
  by (simp_all add: passing_def plain_def matching_def kept_def dropped_def HasPrefix_def
      ClusterFlag_def AbbrFollowFlag_def FollowFlag_def AbbrWatchFlag_def WatchFlag_def
      trimQuotes_def isQuote_def)

text \<open>
  Claim C2, as amended. Take a message whose first token is a cluster-command verb, with
  passthrough enabled, and in it a cluster-scope flag, in the one-token form
  \<open>--cluster-name=v\<close> or the two-token form \<open>--cluster-name v\<close>, that the scan reaches:
  before it stand only tokens that do not begin with \<open>--cluster-name\<close> and cluster-scope
  flags whose value matches. The value is compared after all the quote characters in
  front of it and all those behind it are taken away, however many layers there are, a
  quote inside the value staying. If what is left differs from the cluster name, the
  response is empty and the runner is not invoked, whatever follows. If it equals the
  cluster name, and what follows is again only such tokens and matching flags, the runner
  is invoked once, whether or not the channel is pre-authorized, with \<open>-n default\<close>, the
  verb and the other tokens in order, the tokens of every cluster-scope flag consumed and
  the follow and watch tokens dropped; the response is the cluster header and the
  runner's output.
\<close>

theorem cluster_flag_scopes_command:
  assumes "Fields (Message e) = verb # concat lead @ flag @ concat trail"
    and "lookup validKubectlCommands verb"
    and "AllowKubectl e"
    and "\<forall>s\<in>set lead. passing (ClusterName e) s"
    and "flag = oneToken v \<or> flag = twoTokens v"
    and "v = ql @ core @ qr"
    and "set ql \<subseteq> {CHR 0x27, CHR 0x22}"
    and "set qr \<subseteq> {CHR 0x27, CHR 0x22}"
    and "core = [] \<or> (hd core \<notin> {CHR 0x27, CHR 0x22} \<and> last core \<notin> {CHR 0x27, CHR 0x22})"
  shows "(core \<noteq> ClusterName e \<longrightarrow> Execute env e w = Inr ([], w))
       \<and> (core = ClusterName e \<and> (\<forall>s\<in>set trail. passing (ClusterName e) s) \<longrightarrow>
            (let finalArgs = ''-n'' # ''default'' # verb # kept lead @ kept trail;
                 r = run_command env kubectlBinary finalArgs
             in Execute env e w =
                  Inr (''Cluster: '' @ ClusterName e @ [CHR 0x0A] @ fst r
                       @ (case snd r of None \<Rightarrow> [] | Some er \<Rightarrow> er),
                       w\<lparr>runs := runs w @ [(kubectlBinary, finalArgs)]\<rparr>)))"
proof -
  have tq: "trimQuotes v = core"
    unfolding assms(6) by (rule trimQuotes_layers [OF assms(7-9)])
  have differs: "Execute env e w = Inr ([], w)" if "core \<noteq> ClusterName e"
  proof -
    from that tq have "trimQuotes v \<noteq> ClusterName e" by simp
    then show ?thesis
      by (rule Execute_segments_differs [OF assms(1-5)])
  qed
  have equals: "Execute env e w =
        Inr (''Cluster: '' @ ClusterName e @ [CHR 0x0A]
             @ fst (run_command env kubectlBinary
                      (''-n'' # ''default'' # verb # kept lead @ kept trail))
             @ (case snd (run_command env kubectlBinary
                            (''-n'' # ''default'' # verb # kept lead @ kept trail)) of
                  None \<Rightarrow> [] | Some er \<Rightarrow> er),
             w\<lparr>runs := runs w @ [(kubectlBinary,
                  ''-n'' # ''default'' # verb # kept lead @ kept trail)]\<rparr>)"
    if "core = ClusterName e" and rest: "\<forall>s\<in>set trail. passing (ClusterName e) s"
  proof -
    from that(1) tq have eq: "trimQuotes v = ClusterName e" by simp
    show ?thesis
      by (rule Execute_segments_equals [OF assms(1-5) eq rest refl])
  qed
  show ?thesis
    unfolding Let_def using differs equals by blast
qed

theorem cluster_flag_scopes_command_witness:
  "Fields (Message (sample_executor
      (''get pods -w --cluster-name='' @ [CHR 0x22, CHR 0x27] @ ''prod'' @ [CHR 0x27, CHR 0x22]
       @ '' -o yaml --cluster-name prod'') True False))
     = ''get'' # concat [[''pods''], [''-w'']]
         @ oneToken ([CHR 0x22, CHR 0x27] @ ''prod'' @ [CHR 0x27, CHR 0x22])
         @ concat [[''-o''], [''yaml''], [''--cluster-name'', ''prod'']]
   \<and> Fields (Message (sample_executor
      (''get pods --cluster-name=prod --cluster-name '' @ [CHR 0x27] @ ''pr'' @ [CHR 0x22]
       @ ''od'' @ [CHR 0x27]) True True))
     = ''get'' # concat [[''pods''], [''--cluster-name=prod'']]
         @ twoTokens ([CHR 0x27] @ (''pr'' @ [CHR 0x22] @ ''od'') @ [CHR 0x27])
         @ concat []
   \<and> lookup validKubectlCommands ''get''
   \<and> passing ''prod'' [''pods''] \<and> passing ''prod'' [''-w'']
   \<and> passing ''prod'' [''--cluster-name=prod'']
   \<and> passing ''prod'' [''-o''] \<and> passing ''prod'' [''yaml'']
   \<and> passing ''prod'' [''--cluster-name'', ''prod'']
   \<and> hd ''prod'' \<notin> {CHR 0x27, CHR 0x22} \<and> last ''prod'' \<notin> {CHR 0x27, CHR 0x22}
   \<and> hd (''pr'' @ [CHR 0x22] @ ''od'') \<notin> {CHR 0x27, CHR 0x22}
   \<and> last (''pr'' @ [CHR 0x22] @ ''od'') \<notin> {CHR 0x27, CHR 0x22}
   \<and> ''pr'' @ [CHR 0x22] @ ''od'' \<noteq> ''prod''
   \<and> Execute (sample_env [])
        (sample_executor
           (''get pods -w --cluster-name='' @ [CHR 0x22, CHR 0x27] @ ''prod'' @ [CHR 0x27, CHR 0x22]
            @ '' -o yaml --cluster-name prod'') True False)
        sample_world
       = Inr (''Cluster: prod'' @ [CHR 0x0A] @ ''ok'',
              sample_world\<lparr>runs := [(''/usr/local/bin/kubectl'',
                                      [''-n'', ''default'', ''get'', ''pods'', ''-o'', ''yaml''])]\<rparr>)
   \<and> Execute (sample_env [])
        (sample_executor
           (''get pods --cluster-name=prod --cluster-name '' @ [CHR 0x27] @ ''pr'' @ [CHR 0x22]
            @ ''od'' @ [CHR 0x27]) True True)
        sample_world
       = Inr ([], sample_world)"
proof -
  let ?v1 = "[CHR 0x22, CHR 0x27] @ ''prod'' @ [CHR 0x27, CHR 0x22]"
  let ?c2 = "''pr'' @ [CHR 0x22] @ ''od''"
  let ?v2 = "[CHR 0x27] @ ?c2 @ [CHR 0x27]"
  let ?e1 = "sample_executor (''get pods -w --cluster-name='' @ [CHR 0x22, CHR 0x27] @ ''prod''
               @ [CHR 0x27, CHR 0x22] @ '' -o yaml --cluster-name prod'') True False"
  let ?e2 = "sample_executor (''get pods --cluster-name=prod --cluster-name '' @ [CHR 0x27]
               @ ''pr'' @ [CHR 0x22] @ ''od'' @ [CHR 0x27]) True True"
  have f1: "Fields (Message ?e1) = ''get'' # concat [[''pods''], [''-w'']] @ oneToken ?v1
              @ concat [[''-o''], [''yaml''], [''--cluster-name'', ''prod'']]"
    by (simp add: sample_executor_simps Fields_def spaceWidth_def oneToken_def ClusterFlag_def)
  have f2: "Fields (Message ?e2) = ''get'' # concat [[''pods''], [''--cluster-name=prod'']]
              @ twoTokens ?v2 @ concat []"
    by (simp add: sample_executor_simps Fields_def spaceWidth_def twoTokens_def ClusterFlag_def)
  have g: "lookup validKubectlCommands ''get''" by (simp add: lookup_kubectl_iff)
  have a1: "AllowKubectl ?e1" and a2: "AllowKubectl ?e2"
    by (simp_all add: sample_executor_simps)
  have p1: "\<forall>s\<in>set [[''pods''], [''-w'']]. passing (ClusterName ?e1) s"
    and p2: "\<forall>s\<in>set [[''pods''], [''--cluster-name=prod'']]. passing (ClusterName ?e2) s"
    and p3: "\<forall>s\<in>set [[''-o''], [''yaml''], [''--cluster-name'', ''prod'']]. passing (ClusterName ?e1) s"
    by (simp_all add: sample_executor_simps sample_segments)
  have o1: "oneToken ?v1 = oneToken ?v1 \<or> oneToken ?v1 = twoTokens ?v1"
    and o2: "twoTokens ?v2 = oneToken ?v2 \<or> twoTokens ?v2 = twoTokens ?v2"
    by simp_all
  have q1: "set [CHR 0x22, CHR 0x27] \<subseteq> {CHR 0x27, CHR 0x22}"
    and q2: "set [CHR 0x27, CHR 0x22] \<subseteq> {CHR 0x27, CHR 0x22}"
    and q3: "set [CHR 0x27] \<subseteq> {CHR 0x27, CHR 0x22}"
    by simp_all
  have c1: "''prod'' = [] \<or> (hd ''prod'' \<notin> {CHR 0x27, CHR 0x22} \<and> last ''prod'' \<notin> {CHR 0x27, CHR 0x22})"
    and c2: "?c2 = [] \<or> (hd ?c2 \<notin> {CHR 0x27, CHR 0x22} \<and> last ?c2 \<notin> {CHR 0x27, CHR 0x22})"
    by simp_all
  have d2: "?c2 \<noteq> ClusterName ?e2" and d1: "''prod'' = ClusterName ?e1"
    by (simp_all add: sample_executor_simps)
  have r1: "Execute (sample_env []) ?e1 sample_world
       = Inr (''Cluster: prod'' @ [CHR 0x0A] @ ''ok'',
              sample_world\<lparr>runs := [(''/usr/local/bin/kubectl'',
                                      [''-n'', ''default'', ''get'', ''pods'', ''-o'', ''yaml''])]\<rparr>)"
    using cluster_flag_scopes_command [OF f1 g a1 p1 o1 refl q1 q2 c1,
        of "sample_env []" sample_world] d1 p3
    by (simp add: Let_def sample_segments sample_env_simps sample_executor_simps
        kubectlBinary_def sample_world_def)
  have r2: "Execute (sample_env []) ?e2 sample_world = Inr ([], sample_world)"
    using cluster_flag_scopes_command [OF f2 g a2 p2 o2 refl q3 q3 c2,
        of "sample_env []" sample_world] d2
    by simp
  have h: "hd ''prod'' \<notin> {CHR 0x27, CHR 0x22}" "last ''prod'' \<notin> {CHR 0x27, CHR 0x22}"
      "hd ?c2 \<notin> {CHR 0x27, CHR 0x22}" "last ?c2 \<notin> {CHR 0x27, CHR 0x22}" "?c2 \<noteq> ''prod''"
    by simp_all
  show ?thesis
    by (intro conjI f1 f2 g sample_segments(1-6) h r1 r2)
qed

text \<open>
  Claim C2 as stated fails in two ways. It compares the value after trimming one layer
  of quotes: the value \<open>"'prod'"\<close>, quoted twice, is \<open>'prod'\<close> after one layer and so
  differs from the cluster name \<open>prod\<close>, and the claim then wants an empty response and
  no run, while the code trims both layers and runs the command. And it lets the flag
  whose value equals the cluster name decide: in
  \<open>get pods --cluster-name=prod --cluster-name=staging\<close> that flag is there, and the claim
  then wants the command forwarded, while the code goes on to the second flag and answers
  with the empty string.
\<close>

theorem cluster_flag_scopes_command_counterexample:
  "spec_trimOneLayer ([CHR 0x22, CHR 0x27] @ ''prod'' @ [CHR 0x27, CHR 0x22])
     \<noteq> ClusterName (sample_executor
           (''get pods --cluster-name='' @ [CHR 0x22, CHR 0x27] @ ''prod'' @ [CHR 0x27, CHR 0x22])
           True False)
   \<and> Execute (sample_env [])
        (sample_executor
           (''get pods --cluster-name='' @ [CHR 0x22, CHR 0x27] @ ''prod'' @ [CHR 0x27, CHR 0x22])
           True False)
        sample_world
      = Inr (''Cluster: prod'' @ [CHR 0x0A] @ ''ok'',
             sample_world\<lparr>runs := [(''/usr/local/bin/kubectl'',
                                     [''-n'', ''default'', ''get'', ''pods''])]\<rparr>)
   \<and> Execute (sample_env [])
        (sample_executor
           (''get pods --cluster-name='' @ [CHR 0x22, CHR 0x27] @ ''prod'' @ [CHR 0x27, CHR 0x22])
           True False)
        sample_world
      \<noteq> Inr ([], sample_world)
   \<and> Fields (Message (sample_executor ''get pods --cluster-name=prod --cluster-name=staging''
                        True True))
      = [''get'', ''pods''] @ oneToken ''prod'' @ [''--cluster-name=staging'']
   \<and> spec_trimOneLayer ''prod''
      = ClusterName (sample_executor ''get pods --cluster-name=prod --cluster-name=staging''
                       True True)
   \<and> Execute (sample_env [])
        (sample_executor ''get pods --cluster-name=prod --cluster-name=staging'' True True)
        sample_world
      = Inr ([], sample_world)"
proof -
  let ?v = "[CHR 0x22, CHR 0x27] @ ''prod'' @ [CHR 0x27, CHR 0x22]"
  let ?e = "sample_executor (''get pods --cluster-name='' @ ?v) True False"
  let ?e' = "sample_executor ''get pods --cluster-name=prod --cluster-name=staging'' True True"
  have s: "spec_trimOneLayer ?v \<noteq> ClusterName ?e"
    by (simp add: spec_trimOneLayer_def isQuote_def sample_executor_simps)
  have f: "Fields (Message ?e) = ''get'' # [''pods''] @ oneToken ?v @ []"
    by (simp add: sample_executor_simps Fields_def spaceWidth_def oneToken_def ClusterFlag_def)
  have g: "lookup validKubectlCommands ''get''" by (simp add: lookup_kubectl_iff)
  have a: "AllowKubectl ?e" and a': "AllowKubectl ?e'" by (simp_all add: sample_executor_simps)
  have o: "oneToken ?v = oneToken ?v \<or> oneToken ?v = twoTokens ?v" by simp
  have p: "\<forall>t\<in>set [''pods'']. \<not> HasPrefix t ClusterFlag"
    by (simp add: sample_tokens_kept)
  have t: "trimQuotes ?v = ClusterName ?e"
    by (simp add: sample_executor_simps trimQuotes_def isQuote_def)
  have c: "\<forall>t\<in>set ([] :: string list). \<not> HasPrefix t ClusterFlag" by simp
  have r: "Execute (sample_env []) ?e sample_world
      = Inr (''Cluster: prod'' @ [CHR 0x0A] @ ''ok'',
             sample_world\<lparr>runs := [(''/usr/local/bin/kubectl'',
                                     [''-n'', ''default'', ''get'', ''pods''])]\<rparr>)"
    using Execute_flag_equals [where env = "sample_env []" and w = sample_world,
        OF f g a o p t c refl]
    by (simp add: sample_tokens_kept sample_env_simps sample_executor_simps
        kubectlBinary_def sample_world_def)
  have n: "sample_world\<lparr>runs := [(''/usr/local/bin/kubectl'',
                                     [''-n'', ''default'', ''get'', ''pods''])]\<rparr> \<noteq> sample_world"
    by (simp add: sample_world_def)
  have f': "Fields (Message ?e') = [''get'', ''pods''] @ oneToken ''prod'' @ [''--cluster-name=staging'']"
    by (simp add: sample_executor_simps Fields_def spaceWidth_def oneToken_def ClusterFlag_def)
  then have f'': "Fields (Message ?e') = ''get'' # concat [[''pods''], [''--cluster-name=prod'']]
                     @ oneToken ''staging'' @ []"
    by (simp add: oneToken_def ClusterFlag_def)
  have s': "spec_trimOneLayer ''prod'' = ClusterName ?e'"
    by (simp add: spec_trimOneLayer_def isQuote_def sample_executor_simps)
  have p': "\<forall>s\<in>set [[''pods''], [''--cluster-name=prod'']]. passing (ClusterName ?e') s"
    by (simp add: sample_executor_simps sample_segments)
  have o': "oneToken ''staging'' = oneToken ''staging'' \<or> oneToken ''staging'' = twoTokens ''staging''"
    by simp
  have t': "trimQuotes ''staging'' \<noteq> ClusterName ?e'"
    by (simp add: sample_executor_simps trimQuotes_def isQuote_def)
  have r': "Execute (sample_env []) ?e' sample_world = Inr ([], sample_world)"
    by (rule Execute_segments_differs [OF f'' g a' p' o' t'])
  from s r n f' s' r' show ?thesis by simp
qed

lemma Execute_not_allowed:
  assumes "Fields (Message e) = verb # rest"
    and "lookup validKubectlCommands verb"
    and "\<not> AllowKubectl e"
  shows "Execute env e w =
     Inr (''Sorry, the admin hasn't given me the permission to execute kubectl command on cluster ''
          @ [CHR 0x27] @ ClusterName e @ [CHR 0x27] @ ''.'', w)"
  using assms by (simp add: Execute_def index_def Sprintf_kubectlDisabledMsg)

text \<open>
  Claim C3, as amended. For a message whose first token is a cluster-command verb: when
  passthrough is globally disabled the response is the fixed not-permitted message, which
  names the cluster, and the runner is not invoked. When passthrough is enabled, the
  response is the empty string and the runner is not invoked in each of these cases: the
  scan reaches a cluster-scope flag whose value differs from the cluster name (only
  tokens that do not begin with \<open>--cluster-name\<close> and flags with a matching value stand
  before it); the scan reaches a last token \<open>--cluster-name\<close> that has no value after it;
  the channel is not pre-authorized and no token begins with \<open>--cluster-name\<close>.
\<close>

theorem kubectl_denial_response:
  assumes "Fields (Message e) = verb # toks"
    and "lookup validKubectlCommands verb"
  shows "(\<not> AllowKubectl e \<longrightarrow>
            Execute env e w =
              Inr (''Sorry, the admin hasn't given me the permission to execute kubectl command on cluster ''
                   @ [CHR 0x27] @ ClusterName e @ [CHR 0x27] @ ''.'', w))
       \<and> (AllowKubectl e \<and> toks = concat segs @ flag @ post
            \<and> (\<forall>s\<in>set segs. passing (ClusterName e) s)
            \<and> (flag = oneToken v \<or> flag = twoTokens v)
            \<and> trimQuotes v \<noteq> ClusterName e \<longrightarrow>
            Execute env e w = Inr ([], w))
       \<and> (AllowKubectl e \<and> toks = concat segs @ [ClusterFlag]
            \<and> (\<forall>s\<in>set segs. passing (ClusterName e) s) \<longrightarrow>
            Execute env e w = Inr ([], w))
       \<and> (AllowKubectl e \<and> \<not> IsAuthChannel e
            \<and> (\<forall>t\<in>set toks. \<not> HasPrefix t ClusterFlag) \<longrightarrow>
            Execute env e w = Inr ([], w))"
proof (intro conjI impI)
  assume "\<not> AllowKubectl e"
  then show "Execute env e w =
      Inr (''Sorry, the admin hasn't given me the permission to execute kubectl command on cluster ''
           @ [CHR 0x27] @ ClusterName e @ [CHR 0x27] @ ''.'', w)"
    by (rule Execute_not_allowed [OF assms])
next
  assume h: "AllowKubectl e \<and> toks = concat segs @ flag @ post
            \<and> (\<forall>s\<in>set segs. passing (ClusterName e) s)
            \<and> (flag = oneToken v \<or> flag = twoTokens v)
            \<and> trimQuotes v \<noteq> ClusterName e"
  then have f: "Fields (Message e) = verb # concat segs @ flag @ post"
    using assms(1) by simp
  from h show "Execute env e w = Inr ([], w)"
    using Execute_segments_differs [OF f assms(2)] by blast
next
  assume h: "AllowKubectl e \<and> toks = concat segs @ [ClusterFlag]
            \<and> (\<forall>s\<in>set segs. passing (ClusterName e) s)"
  then have f: "Fields (Message e) = verb # concat segs @ [ClusterFlag]"
    using assms(1) by simp
  from h show "Execute env e w = Inr ([], w)"
    using Execute_segments_trailing [OF f assms(2)] by blast
next
  assume h: "AllowKubectl e \<and> \<not> IsAuthChannel e
            \<and> (\<forall>t\<in>set toks. \<not> HasPrefix t ClusterFlag)"
  then show "Execute env e w = Inr ([], w)"
    using Execute_no_flag [OF assms, of _ env w] by simp
qed

theorem kubectl_denial_response_witness:
  "Fields (Message (sample_executor ''get pods'' False False)) = ''get'' # [''pods'']
   \<and> Fields (Message (sample_executor ''get pods'' True False)) = ''get'' # [''pods'']
   \<and> Fields (Message (sample_executor ''get pods --cluster-name=prod --cluster-name=staging''
                        True True))
       = ''get'' # [''pods'', ''--cluster-name=prod'', ''--cluster-name=staging'']
   \<and> Fields (Message (sample_executor ''get pods --cluster-name'' True True))
       = ''get'' # [''pods'', ''--cluster-name'']
   \<and> lookup validKubectlCommands ''get''
   \<and> \<not> AllowKubectl (sample_executor ''get pods'' False False)
   \<and> (AllowKubectl (sample_executor ''get pods --cluster-name=prod --cluster-name=staging''
                       True True)
       \<and> [''pods'', ''--cluster-name=prod'', ''--cluster-name=staging'']
           = concat [[''pods''], [''--cluster-name=prod'']] @ oneToken ''staging'' @ []
       \<and> passing ''prod'' [''pods''] \<and> passing ''prod'' [''--cluster-name=prod'']
       \<and> trimQuotes ''staging''
           \<noteq> ClusterName (sample_executor
                 ''get pods --cluster-name=prod --cluster-name=staging'' True True))
   \<and> (AllowKubectl (sample_executor ''get pods --cluster-name'' True True)
       \<and> [''pods'', ''--cluster-name''] = concat [[''pods'']] @ [ClusterFlag])
   \<and> (AllowKubectl (sample_executor ''get pods'' True False)
       \<and> \<not> IsAuthChannel (sample_executor ''get pods'' True False)
       \<and> \<not> HasPrefix ''pods'' ClusterFlag)
   \<and> Execute (sample_env []) (sample_executor ''get pods'' False False) sample_world
       = Inr (''Sorry, the admin hasn't given me the permission to execute kubectl command on cluster 'prod'.'',
              sample_world)
   \<and> Execute (sample_env [])
        (sample_executor ''get pods --cluster-name=prod --cluster-name=staging'' True True)
        sample_world = Inr ([], sample_world)
   \<and> Execute (sample_env []) (sample_executor ''get pods --cluster-name'' True True)
        sample_world = Inr ([], sample_world)
   \<and> Execute (sample_env []) (sample_executor ''get pods'' True False) sample_world
       = Inr ([], sample_world)"
proof -
  let ?e1 = "sample_executor ''get pods'' False False"
  let ?e2 = "sample_executor ''get pods --cluster-name=prod --cluster-name=staging'' True True"
  let ?e3 = "sample_executor ''get pods'' True False"
  let ?e4 = "sample_executor ''get pods --cluster-name'' True True"
  have f1: "Fields (Message ?e1) = ''get'' # [''pods'']"
    and f3: "Fields (Message ?e3) = ''get'' # [''pods'']"
    and f2: "Fields (Message ?e2) = ''get'' # [''pods'', ''--cluster-name=prod'', ''--cluster-name=staging'']"
    and f4: "Fields (Message ?e4) = ''get'' # [''pods'', ''--cluster-name'']"
    by (simp_all add: sample_executor_simps Fields_def spaceWidth_def)
  have g: "lookup validKubectlCommands ''get''" by (simp add: lookup_kubectl_iff)
  have h1: "\<not> AllowKubectl ?e1" by (simp add: sample_executor_simps)
  have h2: "AllowKubectl ?e2
       \<and> [''pods'', ''--cluster-name=prod'', ''--cluster-name=staging'']
           = concat [[''pods''], [''--cluster-name=prod'']] @ oneToken ''staging'' @ []
       \<and> passing ''prod'' [''pods''] \<and> passing ''prod'' [''--cluster-name=prod'']
       \<and> trimQuotes ''staging'' \<noteq> ClusterName ?e2"
    by (simp add: sample_executor_simps oneToken_def ClusterFlag_def sample_segments
        trimQuotes_def isQuote_def)
  have h4: "AllowKubectl ?e4 \<and> [''pods'', ''--cluster-name''] = concat [[''pods'']] @ [ClusterFlag]"
    by (simp add: sample_executor_simps ClusterFlag_def)
  have h3: "AllowKubectl ?e3 \<and> \<not> IsAuthChannel ?e3 \<and> \<not> HasPrefix ''pods'' ClusterFlag"
    by (simp add: sample_executor_simps sample_tokens_kept)
  have r1: "Execute (sample_env []) ?e1 sample_world
       = Inr (''Sorry, the admin hasn't given me the permission to execute kubectl command on cluster 'prod'.'',
              sample_world)"
    using kubectl_denial_response [OF f1 g, of "sample_env []" sample_world] h1
    by (simp add: sample_executor_simps)
  have r2: "Execute (sample_env []) ?e2 sample_world = Inr ([], sample_world)"
  proof -
    have "\<forall>s\<in>set [[''pods''], [''--cluster-name=prod'']]. passing (ClusterName ?e2) s"
      by (simp add: sample_executor_simps sample_segments)
    moreover have "oneToken ''staging'' = oneToken ''staging'' \<or> oneToken ''staging'' = twoTokens ''staging''"
      by simp
    ultimately show ?thesis
      using kubectl_denial_response [OF f2 g, where env = "sample_env []" and w = sample_world
          and segs = "[[''pods''], [''--cluster-name=prod'']]" and flag = "oneToken ''staging''"
          and post = "[]" and v = "''staging''"] h2
      by blast
  qed
  have r4: "Execute (sample_env []) ?e4 sample_world = Inr ([], sample_world)"
  proof -
    have "\<forall>s\<in>set [[''pods'']]. passing (ClusterName ?e4) s"
      by (simp add: sample_executor_simps sample_segments)
    then show ?thesis
      using kubectl_denial_response [OF f4 g, where env = "sample_env []" and w = sample_world
          and segs = "[[''pods'']]"] h4
      by blast
  qed
  have r3: "Execute (sample_env []) ?e3 sample_world = Inr ([], sample_world)"
  proof -
    have "\<forall>t\<in>set [''pods'']. \<not> HasPrefix t ClusterFlag"
      by (simp add: sample_tokens_kept)
    then show ?thesis
      using kubectl_denial_response [OF f3 g, where env = "sample_env []" and w = sample_world] h3
      by blast
  qed
  show ?thesis
    using f1 f2 f3 f4 g h1 h2 h3 h4 r1 r2 r3 r4 by blast
qed

text \<open>
  Claim C3 as stated wants the empty string when passthrough is globally disabled. The
  code answers with the not-permitted message.
\<close>

theorem passthrough_disabled_counterexample:
  "Fields (Message (sample_executor ''get pods'' False False)) = [''get'', ''pods'']
   \<and> lookup validKubectlCommands ''get''
   \<and> \<not> AllowKubectl (sample_executor ''get pods'' False False)
   \<and> Execute (sample_env []) (sample_executor ''get pods'' False False) sample_world
       = Inr (''Sorry, the admin hasn't given me the permission to execute kubectl command on cluster 'prod'.'',
              sample_world)
   \<and> Execute (sample_env []) (sample_executor ''get pods'' False False) sample_world
       \<noteq> Inr ([], sample_world)"
proof -
  let ?e = "sample_executor ''get pods'' False False"
  have f: "Fields (Message ?e) = ''get'' # [''pods'']"
    by (simp add: sample_executor_simps Fields_def spaceWidth_def)
  have g: "lookup validKubectlCommands ''get''" by (simp add: lookup_kubectl_iff)
  have h: "\<not> AllowKubectl ?e" by (simp add: sample_executor_simps)
  show ?thesis
    using Execute_not_allowed [OF f g h, of "sample_env []" sample_world] f g h
    by (simp add: sample_executor_simps)
qed

text \<open>
  Every run that \<open>Execute\<close> hands to the runner for a cluster command has arguments free
  of \<open>-f\<close>, \<open>-w\<close> and of tokens that begin with \<open>--follow\<close> or \<open>--watch\<close>.
\<close>

lemma Execute_forwards_no_dropped:
  assumes "Fields (Message e) = verb # toks"
    and "lookup validKubectlCommands verb"
    and "AllowKubectl e"
    and "Execute env e w = Inr (response, w')"
    and "runs w' \<noteq> runs w"
  shows "\<exists>finalArgs. runs w' = runs w @ [(kubectlBinary, finalArgs)]
           \<and> (\<forall>t\<in>set finalArgs. \<not> dropped t)"
proof (cases "kubectl_loop (ClusterName e) toks False (IsAuthChannel e) [''-n'', ''default'', verb]")
  case (Panicked err)
  with assms(4) show ?thesis
    by (simp add: Execute_kubectl [OF assms(1-3)])
next
  case ReturnedEmpty
  with assms(4,5) show ?thesis
    by (auto simp: Execute_kubectl [OF assms(1-3)])
next
  case (Finished r)
  obtain finalArgs a where r: "r = (finalArgs, a)" by (cases r)
  have "\<forall>t\<in>set [''-n'', ''default'', verb]. \<not> dropped t"
    using verb_kept [OF assms(2)] by (simp add: namespace_kept)
  with Finished r have nd: "\<forall>t\<in>set finalArgs. \<not> dropped t"
    using kubectl_loop_forwards_no_dropped by blast
  from assms(4,5) Finished r have "runs w' = runs w @ [(kubectlBinary, finalArgs)]"
    by (auto simp: Execute_kubectl [OF assms(1-3)] split: if_splits)
  with nd show ?thesis by blast
qed

text \<open>
  Claim C5 says that the forwarded arguments hold no follow and no watch flag, short or
  long, with or without a value. The scan drops the long forms by their prefix, so
  \<open>--follow=true\<close> goes, but the short forms only when the token is exactly \<open>-f\<close> or
  \<open>-w\<close>: the short follow flag with a value, \<open>-f=true\<close>, reaches the runner. The
  specification's own example, with \<open>-f\<close> alone, is sanitized.
\<close>

theorem short_follow_flag_with_value_forwarded:
  "spec_streamFlag ''-f=true''
   \<and> Execute (sample_env []) (sample_executor ''logs pod1 -f=true --cluster-name=prod'' True False)
        sample_world
      = Inr (''Cluster: prod'' @ [CHR 0x0A] @ ''ok'',
             sample_world\<lparr>runs := [(''/usr/local/bin/kubectl'',
                                     [''-n'', ''default'', ''logs'', ''pod1'', ''-f=true''])]\<rparr>)
   \<and> Execute (sample_env []) (sample_executor ''logs pod1 -f --cluster-name=prod'' True False)
        sample_world
      = Inr (''Cluster: prod'' @ [CHR 0x0A] @ ''ok'',
             sample_world\<lparr>runs := [(''/usr/local/bin/kubectl'',
                                     [''-n'', ''default'', ''logs'', ''pod1''])]\<rparr>)"
proof -
  let ?e1 = "sample_executor ''logs pod1 -f=true --cluster-name=prod'' True False"
  let ?e2 = "sample_executor ''logs pod1 -f --cluster-name=prod'' True False"
  have s: "spec_streamFlag ''-f=true''" by (simp add: spec_streamFlag_def)
  have f1: "Fields (Message ?e1) = ''logs'' # [''pod1'', ''-f=true''] @ oneToken ''prod'' @ []"
    and f2: "Fields (Message ?e2) = ''logs'' # [''pod1'', ''-f''] @ oneToken ''prod'' @ []"
    by (simp_all add: sample_executor_simps Fields_def spaceWidth_def oneToken_def ClusterFlag_def)
  have g: "lookup validKubectlCommands ''logs''" by (simp add: lookup_kubectl_iff)
  have a1: "AllowKubectl ?e1" and a2: "AllowKubectl ?e2"
    by (simp_all add: sample_executor_simps)
  have o: "oneToken ''prod'' = oneToken ''prod'' \<or> oneToken ''prod'' = twoTokens ''prod''"
    by simp
  have p1: "\<forall>t\<in>set [''pod1'', ''-f=true'']. \<not> HasPrefix t ClusterFlag"
    and p2: "\<forall>t\<in>set [''pod1'', ''-f'']. \<not> HasPrefix t ClusterFlag"
    by (simp_all add: sample_tokens_kept)
  have t1: "trimQuotes ''prod'' = ClusterName ?e1" and t2: "trimQuotes ''prod'' = ClusterName ?e2"
    by (simp_all add: sample_executor_simps trimQuotes_def isQuote_def)
  have c: "\<forall>t\<in>set ([] :: string list). \<not> HasPrefix t ClusterFlag" by simp
  have r1: "Execute (sample_env []) ?e1 sample_world
      = Inr (''Cluster: prod'' @ [CHR 0x0A] @ ''ok'',
             sample_world\<lparr>runs := [(''/usr/local/bin/kubectl'',
                                     [''-n'', ''default'', ''logs'', ''pod1'', ''-f=true''])]\<rparr>)"
    using Execute_flag_equals [where env = "sample_env []" and w = sample_world,
        OF f1 g a1 o p1 t1 c refl]
    by (simp add: sample_tokens_kept sample_env_simps sample_executor_simps
        kubectlBinary_def sample_world_def)
  have r2: "Execute (sample_env []) ?e2 sample_world
      = Inr (''Cluster: prod'' @ [CHR 0x0A] @ ''ok'',
             sample_world\<lparr>runs := [(''/usr/local/bin/kubectl'',
                                     [''-n'', ''default'', ''logs'', ''pod1''])]\<rparr>)"
    using Execute_flag_equals [where env = "sample_env []" and w = sample_world,
        OF f2 g a2 o p2 t2 c refl]
    by (simp add: sample_tokens_kept sample_env_simps sample_executor_simps
        kubectlBinary_def sample_world_def)
  from s r1 r2 show ?thesis by simp
qed

section \<open>The image tag checker\<close>

lemma genSplit_nonempty: "genSplit sep sepSave k s \<noteq> []"
  by (cases k) (simp_all split: option.split)

lemma checkImages_append:
  "checkImages word cs recommendations =
     recommendations @
     map (\<lambda>c. '':latest tag used in image '' @ [CHR 0x27] @ Image c @ [CHR 0x27] @ '' of '' @ word
              @ '' '' @ [CHR 0x27] @ ContainerName c @ [CHR 0x27] @ '' should be avoided.''
              @ [CHR 0x0A])
       (filter (\<lambda>c. length (Split (Image c) '':'') = 1 \<or> Split (Image c) '':'' ! 1 = ''latest'') cs)"
  by (induction cs arbitrary: recommendations) (simp_all add: Let_def)

text \<open>
  The filter only ever appends to \<open>Recommendations\<close>: every other field of the event
  is left as it was, and the recommendations already there stay in front.
\<close>

lemma Run_appends_recommendations:
  assumes "Run object event = Inr event'"
  shows "event' = event\<lparr>Recommendations := Recommendations event'\<rparr>
       \<and> prefix (Recommendations event) (Recommendations event')"
  using assms
  by (auto simp: Run_def checkImages_append split: if_splits Object.splits option.splits)

text \<open>
  The filter is a no-op when the kind is not \<open>Pod\<close>, when the type is not create, and
  when the object is not a Pod.
\<close>

lemma Run_noop:
  assumes "Kind event \<noteq> ''Pod'' \<or> Type event \<noteq> CreateEvent \<or> object = OtherObject"
  shows "Run object event = Inr event"
  using assms by (auto simp: Run_def)

text \<open>
  For a Pod create event, the recommendations appended: one for each init-container and
  then one for each container whose image has no colon or has \<open>latest\<close> between its
  first and second colon.
\<close>

lemma Run_pod_create:
  assumes "Kind event = ''Pod''" and "Type event = CreateEvent"
  shows "Run (PodPointer (Some pod)) event =
     Inr (event\<lparr>Recommendations :=
            checkImages ''Container'' (Containers (Spec pod))
              (checkImages ''initContainer'' (InitContainers (Spec pod)) (Recommendations event))\<rparr>)"
  using assms by (simp add: Run_def)

lemma Split_samples:
  "Split ''nginx'' '':'' = [''nginx'']"
  "Split ''nginx:1.14'' '':'' = [''nginx'', ''1.14'']"
  "Split ''nginx:latest'' '':'' = [''nginx'', ''latest'']"
  "Split ''localhost:5000/nginx'' '':'' = [''localhost'', ''5000/nginx'']"
  "Split ''localhost:5000/nginx:latest'' '':'' = [''localhost'', ''5000/nginx'', ''latest'']"
  by (simp_all add: Split_def)

text \<open>
  The example of the specification: containers \<open>nginx\<close>, \<open>nginx:1.14\<close> and
  \<open>nginx:latest\<close> yield two recommendations, for the first and the third.
\<close>

lemma Run_three_containers:
  "Run (sample_pod [''nginx'', ''nginx:1.14'', ''nginx:latest'']) sample_event =
     Inr (sample_event\<lparr>Recommendations :=
       ['':latest tag used in image 'nginx' of Container 'c' should be avoided.'' @ [CHR 0x0A],
        '':latest tag used in image 'nginx:latest' of Container 'c' should be avoided.'' @ [CHR 0x0A]]\<rparr>)"
  by (simp add: Run_def sample_pod_def sample_event_def CreateEvent_def Split_samples)

text \<open>
  Claim C6 says that every container whose image reference has no tag, or the tag
  \<open>latest\<close>, gets a recommendation. The code takes for the tag what stands between the
  first and the second colon of the image. In a reference that names a registry with a
  port the first colon is the port's: \<open>localhost:5000/nginx\<close> has no tag and
  \<open>localhost:5000/nginx:latest\<close> has the tag \<open>latest\<close>, and for a Pod create event with
  these two containers the filter appends nothing.
\<close>

theorem registry_port_hides_latest_tag:
  "spec_imageTag ''localhost:5000/nginx'' = None
   \<and> spec_imageTag ''localhost:5000/nginx:latest'' = Some ''latest''
   \<and> Kind sample_event = ''Pod'' \<and> Type sample_event = CreateEvent
   \<and> Run (sample_pod [''localhost:5000/nginx'', ''localhost:5000/nginx:latest'']) sample_event
       = Inr sample_event"
  by (simp add: spec_imageTag_def Run_def sample_pod_def sample_event_def CreateEvent_def
      Split_samples)

theorem registry_port_hides_latest_tag_witness:
  "Kind sample_event = ''Pod'' \<and> Type sample_event = CreateEvent
   \<and> Recommendations sample_event = []
   \<and> Run (sample_pod [''localhost:5000/nginx'', ''localhost:5000/nginx:latest'']) sample_event
       = Inr sample_event"
proof -
  have "Recommendations sample_event = []" by (simp add: sample_event_def)
  with registry_port_hides_latest_tag show ?thesis by simp
qed

section \<open>The filter listing\<close>

lemma fold_max_ge_init:
  "a \<le> fold (\<lambda>line width. max width (f line)) lines (a :: nat)"
proof (induction lines arbitrary: a)
  case Nil
  then show ?case by simp
next
  case (Cons l lines)
  have "a \<le> max a (f l)" by simp
  also have "\<dots> \<le> fold (\<lambda>line width. max width (f line)) lines (max a (f l))"
    by (rule Cons.IH)
  finally show ?case by simp
qed

lemma fold_max_ge_member:
  "line \<in> set lines \<Longrightarrow> f line \<le> fold (\<lambda>line width. max width (f line)) lines (a :: nat)"
proof (induction lines arbitrary: a)
  case Nil
  then show ?case by simp
next
  case (Cons l lines)
  show ?case
  proof (cases "line = l")
    case True
    have "f l \<le> max a (f l)" by simp
    also have "\<dots> \<le> fold (\<lambda>line width. max width (f line)) lines (max a (f l))"
      by (rule fold_max_ge_init)
    finally show ?thesis using True by simp
  next
    case False
    with Cons.prems have "line \<in> set lines" by simp
    from Cons.IH [OF this] show ?thesis by simp
  qed
qed

lemma columnWidth_ge:
  "line \<in> set lines \<Longrightarrow> RuneCount (line ! j) + 1 \<le> columnWidth lines j"
  unfolding columnWidth_def
  by (rule fold_max_ge_member [where f = "\<lambda>line. RuneCount (line ! j) + 1"])

lemma makeFiltersList_lines:
  "makeFiltersList fs =
     concat (map (\<lambda>l. l @ [CHR 0x0A])
       (map (writeCells
               [columnWidth ([''FILTER'', ''ENABLED'', ''DESCRIPTION'']
                             # map (\<lambda>(k, v). [FilterName k, showBool v, Describe k]) fs) 0,
                columnWidth ([''FILTER'', ''ENABLED'', ''DESCRIPTION'']
                             # map (\<lambda>(k, v). [FilterName k, showBool v, Describe k]) fs) 1])
          ([''FILTER'', ''ENABLED'', ''DESCRIPTION'']
           # map (\<lambda>(k, v). [FilterName k, showBool v, Describe k]) fs)))"
proof -
  have "[0 ..< length [''FILTER'', ''ENABLED'', ''DESCRIPTION''] - 1] = [0, Suc 0]"
    by (simp add: upt_rec)
  then show ?thesis
    by (simp add: makeFiltersList_def tabwriter_def Let_def comp_def)
qed

text \<open>
  Claim C7, as amended. For a registry of N filters whose names and descriptions hold no
  tab, line feed, vertical tab, form feed or escape byte, the listing is N + 1 lines,
  each ended by a line break: the header, and then for each entry, in the order in which
  the entries of the map are iterated, one line that shows the filter's name, its enabled
  flag and its description, in columns separated by at least one space. The lines are
  not sorted: their order is the iteration order of the map.
\<close>

theorem makeFiltersList_rows:
  assumes "\<forall>(k, v)\<in>set fs. cellText (FilterName k) \<and> cellText (Describe k)"
  shows "\<exists>ls. makeFiltersList fs = concat (map (\<lambda>l. l @ [CHR 0x0A]) ls)
      \<and> length ls = Suc (length fs)
      \<and> (\<exists>p q. 0 < p \<and> 0 < q
            \<and> ls ! 0 = ''FILTER'' @ replicate p (CHR '' '') @ ''ENABLED''
                        @ replicate q (CHR '' '') @ ''DESCRIPTION'')
      \<and> (\<forall>i<length fs. \<exists>p q. 0 < p \<and> 0 < q
            \<and> ls ! Suc i = FilterName (fst (fs ! i)) @ replicate p (CHR '' '')
                            @ showBool (snd (fs ! i)) @ replicate q (CHR '' '')
                            @ Describe (fst (fs ! i)))"
proof -
  define row where "row = (\<lambda>(k :: Filter, v). [FilterName k, showBool v, Describe k])"
  define lines where "lines = [''FILTER'', ''ENABLED'', ''DESCRIPTION''] # map row fs"
  define w0 where "w0 = columnWidth lines 0"
  define w1 where "w1 = columnWidth lines 1"
  define ls where "ls = map (writeCells [w0, w1]) lines"
  have out: "makeFiltersList fs = concat (map (\<lambda>l. l @ [CHR 0x0A]) ls)"
    unfolding ls_def w0_def w1_def lines_def row_def by (rule makeFiltersList_lines)
  have len: "length ls = Suc (length fs)"
    by (simp add: ls_def lines_def)
  have cells: "\<exists>p q. 0 < p \<and> 0 < q
      \<and> writeCells [w0, w1] [a, b, c] = a @ replicate p (CHR '' '') @ b @ replicate q (CHR '' '') @ c"
    if "[a, b, c] \<in> set lines" for a b c
  proof -
    from columnWidth_ge [OF that, of 0] have p: "0 < w0 - RuneCount a"
      by (simp add: w0_def)
    from columnWidth_ge [OF that, of 1] have q: "0 < w1 - RuneCount b"
      by (simp add: w1_def)
    have "writeCells [w0, w1] [a, b, c] =
        a @ replicate (w0 - RuneCount a) (CHR '' '') @ b @ replicate (w1 - RuneCount b) (CHR '' '') @ c"
      by simp
    with p q show ?thesis by blast
  qed
  have header: "\<exists>p q. 0 < p \<and> 0 < q
      \<and> ls ! 0 = ''FILTER'' @ replicate p (CHR '' '') @ ''ENABLED''
                  @ replicate q (CHR '' '') @ ''DESCRIPTION''"
    using cells [of "''FILTER''" "''ENABLED''" "''DESCRIPTION''"]
    by (simp add: ls_def lines_def)
  have rows: "\<exists>p q. 0 < p \<and> 0 < q
      \<and> ls ! Suc i = FilterName (fst (fs ! i)) @ replicate p (CHR '' '')
                      @ showBool (snd (fs ! i)) @ replicate q (CHR '' '')
                      @ Describe (fst (fs ! i))"
    if "i < length fs" for i
  proof -
    have r: "row (fs ! i) = [FilterName (fst (fs ! i)), showBool (snd (fs ! i)), Describe (fst (fs ! i))]"
      by (simp add: row_def split_def)
    have "row (fs ! i) \<in> set lines"
      using that by (simp add: lines_def)
    with r have "[FilterName (fst (fs ! i)), showBool (snd (fs ! i)), Describe (fst (fs ! i))] \<in> set lines"
      by simp
    from cells [OF this] r that show ?thesis
      by (simp add: ls_def lines_def)
  qed
  from out len header rows show ?thesis by blast
qed

theorem makeFiltersList_rows_witness:
  "(0 :: nat) < length sample_filters \<and> (1 :: nat) < length sample_filters
   \<and> cellText ''NodeEventsChecker''
   \<and> cellText ''Sends notifications on node level critical events.''
   \<and> cellText ''ImageTagChecker''
   \<and> cellText ''Checks and adds recommendation if 'latest' image tag is used for container image.''
   \<and> (\<exists>ls. makeFiltersList sample_filters = concat (map (\<lambda>l. l @ [CHR 0x0A]) ls)
         \<and> length ls = 3
         \<and> (\<exists>p q. 0 < p \<and> 0 < q
               \<and> ls ! 1 = ''NodeEventsChecker'' @ replicate p (CHR '' '') @ ''false''
                   @ replicate q (CHR '' '')
                   @ ''Sends notifications on node level critical events.'')
         \<and> (\<exists>p q. 0 < p \<and> 0 < q
               \<and> ls ! 2 = ''ImageTagChecker'' @ replicate p (CHR '' '') @ ''true''
                   @ replicate q (CHR '' '')
                   @ ''Checks and adds recommendation if 'latest' image tag is used for container image.''))"
proof -
  have n: "length sample_filters = 2" by (simp add: sample_filters_def)
  have ct: "cellText ''NodeEventsChecker''"
      "cellText ''Sends notifications on node level critical events.''"
      "cellText ''ImageTagChecker''"
      "cellText ''Checks and adds recommendation if 'latest' image tag is used for container image.''"
    by (simp_all add: cellText_def)
  then have cells: "\<forall>(k, v)\<in>set sample_filters. cellText (FilterName k) \<and> cellText (Describe k)"
    by (simp add: sample_filters_def)
  from makeFiltersList_rows [OF cells]
  obtain ls where out: "makeFiltersList sample_filters = concat (map (\<lambda>l. l @ [CHR 0x0A]) ls)"
    and len: "length ls = Suc (length sample_filters)"
    and rows: "\<forall>i<length sample_filters. \<exists>p q. 0 < p \<and> 0 < q
            \<and> ls ! Suc i = FilterName (fst (sample_filters ! i)) @ replicate p (CHR '' '')
                            @ showBool (snd (sample_filters ! i)) @ replicate q (CHR '' '')
                            @ Describe (fst (sample_filters ! i))"
    by blast
  from rows n have "\<exists>p q. 0 < p \<and> 0 < q
            \<and> ls ! Suc 0 = FilterName (fst (sample_filters ! 0)) @ replicate p (CHR '' '')
                            @ showBool (snd (sample_filters ! 0)) @ replicate q (CHR '' '')
                            @ Describe (fst (sample_filters ! 0))"
    by simp
  then have r1: "\<exists>p q. 0 < p \<and> 0 < q
               \<and> ls ! 1 = ''NodeEventsChecker'' @ replicate p (CHR '' '') @ ''false''
                   @ replicate q (CHR '' '')
                   @ ''Sends notifications on node level critical events.''"
    by (simp add: sample_filters_def showBool_def)
  from rows n have "\<exists>p q. 0 < p \<and> 0 < q
            \<and> ls ! Suc 1 = FilterName (fst (sample_filters ! 1)) @ replicate p (CHR '' '')
                            @ showBool (snd (sample_filters ! 1)) @ replicate q (CHR '' '')
                            @ Describe (fst (sample_filters ! 1))"
    by simp
  then have r2: "\<exists>p q. 0 < p \<and> 0 < q
               \<and> ls ! 2 = ''ImageTagChecker'' @ replicate p (CHR '' '') @ ''true''
                   @ replicate q (CHR '' '')
                   @ ''Checks and adds recommendation if 'latest' image tag is used for container image.''"
    by (simp add: sample_filters_def showBool_def numeral_2_eq_2)
  from len n have "length ls = 3" by simp
  with out r1 r2 n ct show ?thesis by auto
qed

text \<open>
  Claim C7 as stated wants the lines sorted by identity whatever the storage order. With
  \<open>NodeEventsChecker\<close> iterated before \<open>ImageTagChecker\<close> the listing shows them in that
  order, and with the two iterated the other way round it shows them the other way
  round.
\<close>

theorem filters_list_order_counterexample:
  "makeFiltersList sample_filters =
     ''FILTER            ENABLED DESCRIPTION'' @ [CHR 0x0A]
     @ ''NodeEventsChecker false   Sends notifications on node level critical events.'' @ [CHR 0x0A]
     @ ''ImageTagChecker   true    Checks and adds recommendation if 'latest' image tag is used for container image.''
     @ [CHR 0x0A]
   \<and> makeFiltersList (rev sample_filters) =
     ''FILTER            ENABLED DESCRIPTION'' @ [CHR 0x0A]
     @ ''ImageTagChecker   true    Checks and adds recommendation if 'latest' image tag is used for container image.''
     @ [CHR 0x0A]
     @ ''NodeEventsChecker false   Sends notifications on node level critical events.'' @ [CHR 0x0A]
   \<and> makeFiltersList (rev sample_filters) \<noteq> makeFiltersList sample_filters
   \<and> (of_char (CHR ''I'') :: nat) < of_char (CHR ''N'')"
proof -
  have a: "makeFiltersList sample_filters =
     ''FILTER            ENABLED DESCRIPTION'' @ [CHR 0x0A]
     @ ''NodeEventsChecker false   Sends notifications on node level critical events.'' @ [CHR 0x0A]
     @ ''ImageTagChecker   true    Checks and adds recommendation if 'latest' image tag is used for container image.''
     @ [CHR 0x0A]"
    by (simp add: makeFiltersList_lines sample_filters_def columnWidth_def RuneCount_def showBool_def)
  have b: "makeFiltersList (rev sample_filters) =
     ''FILTER            ENABLED DESCRIPTION'' @ [CHR 0x0A]
     @ ''ImageTagChecker   true    Checks and adds recommendation if 'latest' image tag is used for container image.''
     @ [CHR 0x0A]
     @ ''NodeEventsChecker false   Sends notifications on node level critical events.'' @ [CHR 0x0A]"
    by (simp add: makeFiltersList_lines sample_filters_def columnWidth_def RuneCount_def showBool_def)
  have c: "makeFiltersList (rev sample_filters) \<noteq> makeFiltersList sample_filters"
    unfolding a b by simp
  from a b c show ?thesis by simp
qed

text \<open>On a pre-authorized channel, \<open>filters list\<close> answers with that listing.\<close>

lemma Execute_filters_list:
  assumes "Fields (Message e) = ''filters'' # ''list'' # rest"
    and "IsAuthChannel e"
  shows "Execute env e w = Inr (makeFiltersList (FiltersMap w), w)"
  using assms
  by (simp add: Execute_def index_def lookup_kubectl_iff lookup_notifier_iff lookup_ping_iff
      lookup_version_iff lookup_filter_iff runFilterCommand_def FilterList_def)

section \<open>Showing the configuration\<close>

text \<open>
  What \<open>showControllerConfig\<close> renders is the stored configuration with the Slack token
  and the ElasticSearch password set to the empty string.
\<close>

lemma showControllerConfig_zeroed:
  assumes "read_config env (getenv env ''CONFIG_PATH'') = Inr b"
    and "b \<noteq> []"
    and "yaml_unmarshal env b = Inr c"
  shows "showControllerConfig env =
           yaml_marshal env (c\<lparr>SlackToken := [], ElasticSearchPassword := []\<rparr>)"
  using assms by (simp add: showControllerConfig_def split: sum.split)

lemma showControllerConfig_empty_file:
  assumes "read_config env (getenv env ''CONFIG_PATH'') = Inr []"
  shows "showControllerConfig env =
           yaml_marshal env ((zero_config env)\<lparr>SlackToken := [], ElasticSearchPassword := []\<rparr>)"
  using assms by (simp add: showControllerConfig_def split: sum.split)

text \<open>When the file cannot be read or parsed, nothing of it is shown.\<close>

lemma showControllerConfig_failure:
  assumes "read_config env (getenv env ''CONFIG_PATH'') = Inl err
           \<or> (read_config env (getenv env ''CONFIG_PATH'') = Inr b \<and> b \<noteq> []
               \<and> yaml_unmarshal env b = Inl err)"
  shows "showControllerConfig env = Inl err"
  using assms by (auto simp: showControllerConfig_def)

lemma Execute_showconfig:
  assumes "Fields (Message e) = ''notifier'' # ''showconfig'' # rest"
    and "IsAuthChannel e"
  shows "Execute env e w =
     Inr (case showControllerConfig env of
            Inl err \<Rightarrow> ''Error in getting configuration!''
          | Inr out \<Rightarrow> ''Showing config for cluster '' @ [CHR 0x27] @ ClusterName e
                        @ [CHR 0x27, CHR 0x0A, CHR 0x0A] @ out, w)"
  using assms
  by (simp add: Execute_def index_def lookup_kubectl_iff lookup_notifier_iff
      runNotifierCommand_def ShowConfig_def Start_def Stop_def Status_def split: sum.split)

text \<open>
  Claim C8, as amended. The handler sets the Slack token and the ElasticSearch password to the
  empty string before it renders the configuration, so the text it returns does not
  depend on what the two fields held: two stored configurations that differ in these two
  fields only give the same text, the rendering of the configuration with both fields
  empty, and so the same answer to \<open>notifier showconfig\<close>.
\<close>

theorem showconfig_hides_secrets:
  assumes "read_config env1 (getenv env1 ''CONFIG_PATH'') = Inr b1"
    and "b1 \<noteq> []"
    and "yaml_unmarshal env1 b1 = Inr c1"
    and "read_config env2 (getenv env2 ''CONFIG_PATH'') = Inr b2"
    and "b2 \<noteq> []"
    and "yaml_unmarshal env2 b2 = Inr c2"
    and "yaml_marshal env2 = yaml_marshal env1"
    and "c2 = c1\<lparr>SlackToken := token, ElasticSearchPassword := password\<rparr>"
    and "Fields (Message e) = ''notifier'' # ''showconfig'' # rest"
    and "IsAuthChannel e"
  shows "showControllerConfig env1 =
           yaml_marshal env1 (c1\<lparr>SlackToken := [], ElasticSearchPassword := []\<rparr>)
       \<and> showControllerConfig env2 = showControllerConfig env1
       \<and> Execute env2 e w = Execute env1 e w"
proof -
  have one: "showControllerConfig env1 =
           yaml_marshal env1 (c1\<lparr>SlackToken := [], ElasticSearchPassword := []\<rparr>)"
    by (rule showControllerConfig_zeroed [OF assms(1-3)])
  have "showControllerConfig env2 =
           yaml_marshal env2 (c2\<lparr>SlackToken := [], ElasticSearchPassword := []\<rparr>)"
    by (rule showControllerConfig_zeroed [OF assms(4-6)])
  also have "\<dots> = yaml_marshal env1 (c1\<lparr>SlackToken := [], ElasticSearchPassword := []\<rparr>)"
    by (simp add: assms(7,8))
  finally have two: "showControllerConfig env2 = showControllerConfig env1"
    using one by simp
  have "Execute env2 e w = Execute env1 e w"
    by (simp add: Execute_showconfig [OF assms(9,10)] two)
  with one two show ?thesis by simp
qed

theorem showconfig_hides_secrets_witness:
  "read_config (sample_env ''s3cret'') (getenv (sample_env ''s3cret'') ''CONFIG_PATH'') = Inr ''s3cret''
   \<and> ''s3cret'' \<noteq> []
   \<and> yaml_unmarshal (sample_env ''s3cret'') ''s3cret'' = Inr (sample_config ''s3cret'')
   \<and> read_config (sample_env ''hunter2'') (getenv (sample_env ''hunter2'') ''CONFIG_PATH'') = Inr ''hunter2''
   \<and> ''hunter2'' \<noteq> []
   \<and> yaml_unmarshal (sample_env ''hunter2'') ''hunter2'' = Inr (sample_config ''hunter2'')
   \<and> yaml_marshal (sample_env ''hunter2'') = yaml_marshal (sample_env ''s3cret'')
   \<and> sample_config ''hunter2''
       = (sample_config ''s3cret'')\<lparr>SlackToken := ''hunter2'', ElasticSearchPassword := ''hunter2''\<rparr>
   \<and> Fields (Message (sample_executor ''notifier showconfig'' True True))
       = ''notifier'' # ''showconfig'' # []
   \<and> IsAuthChannel (sample_executor ''notifier showconfig'' True True)
   \<and> showControllerConfig (sample_env ''s3cret'')
       = Inr ''token:  channel: general notiftype: short password: ''
   \<and> showControllerConfig (sample_env ''hunter2'') = showControllerConfig (sample_env ''s3cret'')
   \<and> Execute (sample_env ''hunter2'') (sample_executor ''notifier showconfig'' True True) sample_world
       = Execute (sample_env ''s3cret'') (sample_executor ''notifier showconfig'' True True) sample_world"
proof -
  have h1: "read_config (sample_env ''s3cret'') (getenv (sample_env ''s3cret'') ''CONFIG_PATH'') = Inr ''s3cret''"
    and h3: "yaml_unmarshal (sample_env ''s3cret'') ''s3cret'' = Inr (sample_config ''s3cret'')"
    and h4: "read_config (sample_env ''hunter2'') (getenv (sample_env ''hunter2'') ''CONFIG_PATH'') = Inr ''hunter2''"
    and h6: "yaml_unmarshal (sample_env ''hunter2'') ''hunter2'' = Inr (sample_config ''hunter2'')"
    and h7: "yaml_marshal (sample_env ''hunter2'') = yaml_marshal (sample_env ''s3cret'')"
    by (simp_all add: sample_env_def)
  have h2: "''s3cret'' \<noteq> []" and h5: "''hunter2'' \<noteq> []" by simp_all
  have h8: "sample_config ''hunter2''
       = (sample_config ''s3cret'')\<lparr>SlackToken := ''hunter2'', ElasticSearchPassword := ''hunter2''\<rparr>"
    by (simp add: sample_config_def)
  have h9: "Fields (Message (sample_executor ''notifier showconfig'' True True))
       = ''notifier'' # ''showconfig'' # []"
    by (simp add: sample_executor_simps Fields_def spaceWidth_def)
  have h10: "IsAuthChannel (sample_executor ''notifier showconfig'' True True)"
    by (simp add: sample_executor_simps)
  note r = showconfig_hides_secrets [OF h1 h2 h3 h4 h5 h6 h7 h8 h9 h10, of sample_world]
  have m: "yaml_marshal (sample_env ''s3cret'')
             ((sample_config ''s3cret'')\<lparr>SlackToken := [], ElasticSearchPassword := []\<rparr>)
           = Inr ''token:  channel: general notiftype: short password: ''"
    by (simp add: sample_env_def sample_config_def)
  from r m h1 h2 h3 h4 h5 h6 h7 h8 h9 h10 show ?thesis by simp
qed

text \<open>
  Claim C8 as stated also says that the returned text never contains the literal value
  of either secret. That depends on what else the document holds: with a token that
  reads like the channel name, \<open>general\<close>, the text shown still contains \<open>general\<close>,
  as the channel.
\<close>

theorem showconfig_secret_text_counterexample:
  "read_config (sample_env ''general'') (getenv (sample_env ''general'') ''CONFIG_PATH'')
     = Inr ''general''
   \<and> yaml_unmarshal (sample_env ''general'') ''general'' = Inr (sample_config ''general'')
   \<and> SlackToken (sample_config ''general'') = ''general''
   \<and> ElasticSearchPassword (sample_config ''general'') = ''general''
   \<and> ''general'' \<noteq> []
   \<and> showControllerConfig (sample_env ''general'')
       = Inr (''token:  channel: '' @ ''general'' @ '' notiftype: short password: '')
   \<and> sublist ''general'' (''token:  channel: '' @ ''general'' @ '' notiftype: short password: '')"
proof -
  have a: "read_config (sample_env ''general'') (getenv (sample_env ''general'') ''CONFIG_PATH'')
     = Inr ''general''"
    and b: "yaml_unmarshal (sample_env ''general'') ''general'' = Inr (sample_config ''general'')"
    by (simp_all add: sample_env_def)
  have c: "SlackToken (sample_config ''general'') = ''general''"
    and d: "ElasticSearchPassword (sample_config ''general'') = ''general''"
    by (simp_all add: sample_config_def)
  have g: "''general'' \<noteq> []" by simp
  have z: "showControllerConfig (sample_env ''general'')
       = yaml_marshal (sample_env ''general'')
           ((sample_config ''general'')\<lparr>SlackToken := [], ElasticSearchPassword := []\<rparr>)"
    by (rule showControllerConfig_zeroed [OF a g b])
  have m: "yaml_marshal (sample_env ''general'')
           ((sample_config ''general'')\<lparr>SlackToken := [], ElasticSearchPassword := []\<rparr>)
       = Inr (''token:  channel: '' @ ''general'' @ '' notiftype: short password: '')"
    by (simp add: sample_env_def sample_config_def)
  have e: "showControllerConfig (sample_env ''general'')
       = Inr (''token:  channel: '' @ ''general'' @ '' notiftype: short password: '')"
    unfolding z by (rule m)
  have f: "sublist ''general'' (''token:  channel: '' @ ''general'' @ '' notiftype: short password: '')"
    by (rule sublist_appendI)
  show ?thesis
    by (intro conjI a b c d e f g)
qed

end
